theory Spec2Isabelle
  imports Main "HOL-Library.Sublist" "HOL-Library.Monad_Syntax"
begin

section \<open>JavaScript values used by the note store\<close>

text \<open>
  A JavaScript string is a sequence of UTF-16 code units; \<open>length\<close>, \<open>includes\<close>,
  \<open>startsWith\<close> and the regular expressions of the sources all work on code units.
  A string is therefore a list of code units, each a natural number.
  \<open>ascii\<close> turns a literal of ASCII characters into its code units.
\<close>

type_synonym jsstring = "nat list"

definition ascii :: "string \<Rightarrow> jsstring" where
  "ascii s = map of_char s"

text \<open>
  Template literal \<^verbatim>\<open>`${counter}`\<close> for a non-negative integer counter: its decimal
  digits, most significant first.
\<close>

function decimal :: "nat \<Rightarrow> jsstring" where
  "decimal n = (if n < 10 then [48 + n] else decimal (n div 10) @ [48 + n mod 10])"
  by pat_completeness auto
termination
  by (relation "measure id") auto

declare decimal.simps [simp del]

lemma decimal_digit: "n < 10 \<Longrightarrow> decimal n = [48 + n]"
  by (simp add: decimal.simps)

text \<open>The number that a run of decimal digits stands for; it reads \<open>decimal\<close> back.\<close>

definition undecimal :: "jsstring \<Rightarrow> nat" where
  "undecimal s = foldl (\<lambda>a d. 10 * a + (d - 48)) 0 s"

lemma undecimal_decimal: "undecimal (decimal n) = n"
proof (induction n rule: decimal.induct)
  case (1 n)
  show ?case
  proof (cases "n < 10")
    case True
    then show ?thesis by (simp add: decimal.simps undecimal_def)
  next
    case False
    with 1 have "undecimal (decimal (n div 10)) = n div 10" by simp
    with False show ?thesis
      by (subst decimal.simps) (simp add: undecimal_def)
  qed
qed

lemma decimal_inj: "decimal a = decimal b \<Longrightarrow> a = b"
  by (metis undecimal_decimal)

text \<open>
  The collision loop of \<open>storeParsedData\<close>, used once for the book title and once per
  annotation id:
  \<^verbatim>\<open>let name = base; let counter = 1;
  while (map.has(name)) { name = `${base}_${counter}`; counter++; }\<close>
  \<open>keys\<close> are the keys of the map, \<open>name\<close> and \<open>counter\<close> the loop variables. The loop
  ends because the candidates \<open>base_1\<close>, \<open>base_2\<close>, ... are pairwise different and the
  map has finitely many keys.
\<close>

function uniqueName :: "jsstring list \<Rightarrow> jsstring \<Rightarrow> jsstring \<Rightarrow> nat \<Rightarrow> jsstring" where
  "uniqueName keys base name counter =
     (if name \<in> set keys then uniqueName keys base (base @ 95 # decimal counter) (Suc counter)
      else name)"
  by pat_completeness auto

lemma finite_suffixed: "finite {n. base @ 95 # decimal n \<in> set keys}"
proof -
  have "inj (\<lambda>n. base @ 95 # decimal n)"
    by (auto simp: inj_def dest: decimal_inj)
  then have "finite ((\<lambda>n. base @ 95 # decimal n) -` set keys)"
    by (intro finite_vimageI) auto
  then show ?thesis by (simp add: vimage_def)
qed

termination uniqueName
proof (relation "measure (\<lambda>(keys, base, name, counter).
          card {n. counter \<le> n \<and> base @ 95 # decimal n \<in> set keys}
          + (if name \<in> set keys then 1 else 0))")
  show "wf (measure (\<lambda>(keys, base, name, counter).
          card {n. counter \<le> n \<and> base @ 95 # decimal n \<in> set keys}
          + (if name \<in> set keys then 1 else 0)))" by simp
next
  fix keys :: "jsstring list" and base name :: jsstring and counter :: nat
  assume taken: "name \<in> set keys"
  let ?P = "\<lambda>n. base @ 95 # decimal n \<in> set keys"
  have fin: "finite {n. Suc counter \<le> n \<and> ?P n}"
    by (rule finite_subset[OF _ finite_suffixed[of base keys]]) auto
  have "card {n. Suc counter \<le> n \<and> ?P n} + (if ?P counter then 1 else 0)
        = card {n. counter \<le> n \<and> ?P n}"
  proof (cases "?P counter")
    case True
    then have "{n. counter \<le> n \<and> ?P n} = insert counter {n. Suc counter \<le> n \<and> ?P n}"
      by (auto simp: Suc_le_eq le_less)
    with fin True show ?thesis by simp
  next
    case False
    then have "{n. counter \<le> n \<and> ?P n} = {n. Suc counter \<le> n \<and> ?P n}"
      by (auto simp: Suc_le_eq le_less)
    with False show ?thesis by simp
  qed
  with taken
  show "((keys, base, base @ 95 # decimal counter, Suc counter), (keys, base, name, counter))
        \<in> measure (\<lambda>(keys, base, name, counter).
          card {n. counter \<le> n \<and> base @ 95 # decimal n \<in> set keys}
          + (if name \<in> set keys then 1 else 0))"
    by simp
qed

declare uniqueName.simps [simp del]

text \<open>\<^verbatim>\<open>s.includes(q)\<close>: \<open>q\<close> occurs in \<open>s\<close> as a contiguous run of code units.\<close>

fun str_includes :: "jsstring \<Rightarrow> jsstring \<Rightarrow> bool" where
  "str_includes [] q = (q = [])"
| "str_includes (c # s) q = (prefix q (c # s) \<or> str_includes s q)"

text \<open>
  \<^verbatim>\<open>Array.prototype.findIndex\<close>: the first index whose element satisfies the predicate;
  \<open>None\<close> stands for the result \<open>-1\<close>.
\<close>

fun findIndex :: "('a \<Rightarrow> bool) \<Rightarrow> 'a list \<Rightarrow> nat option" where
  "findIndex p [] = None"
| "findIndex p (x # xs) = (if p x then Some 0 else map_option Suc (findIndex p xs))"

text \<open>
  A JavaScript \<open>Map\<close> keeps its entries in insertion order: \<open>set\<close> on a key that is
  present replaces the value where it stands, \<open>set\<close> on a new key appends an entry,
  \<open>delete\<close> removes the entry. \<open>get\<close> is \<^const>\<open>map_of\<close>, \<open>has\<close> is membership
  in the keys, \<open>values()\<close> is \<open>map snd\<close>.
\<close>

fun Map_set :: "'k \<Rightarrow> 'v \<Rightarrow> ('k \<times> 'v) list \<Rightarrow> ('k \<times> 'v) list" where
  "Map_set k v [] = [(k, v)]"
| "Map_set k v (e # m) = (if fst e = k then (k, v) # m else e # Map_set k v m)"

definition Map_delete :: "'k \<Rightarrow> ('k \<times> 'v) list \<Rightarrow> ('k \<times> 'v) list" where
  "Map_delete k m = filter (\<lambda>e. fst e \<noteq> k) m"

definition Map_has :: "('k \<times> 'v) list \<Rightarrow> 'k \<Rightarrow> bool" where
  "Map_has m k = (k \<in> set (map fst m))"

section \<open>The record model (shared/types/notes)\<close>

datatype NoteType = Highlight | Note | Bookmark

datatype Source = Duokan | WeChat | Manual | OCR

text \<open>
  \<open>BookNote\<close>: the fields \<open>id\<close> and \<open>chapter\<close> are called \<open>note_id\<close> and \<open>note_chapter\<close> here. Optional fields are options;
  a \<open>Date\<close> is its time value in milliseconds.
\<close>

record BookNote =
  note_id :: jsstring
  bookTitle :: jsstring
  bookAuthor :: "jsstring option"
  noteType :: NoteType
  content :: jsstring
  position :: "int option"
  location :: "jsstring option"
  note_chapter :: "jsstring option"
  createdAt :: int
  updatedAt :: "int option"
  tags :: "jsstring list option"
  color :: "jsstring option"
  source :: Source

record BookMetadata =
  title :: jsstring
  author :: "jsstring option"
  isbn :: "jsstring option"
  coverImage :: "jsstring option"
  totalNotes :: nat
  lastSyncDate :: "int option"

text \<open>\<open>ParsedBookData\<close>, its field \<open>notes\<close> called \<open>book_notes\<close>; the untyped \<open>rawData\<close> field is never read by the store and is left out.\<close>

record ParsedBookData =
  metadata :: BookMetadata
  book_notes :: "BookNote list"

text \<open>
  \<open>Partial<BookNote>\<close>, the argument of \<open>updateNote\<close>: every field may be absent
  (\<open>None\<close>). A field that is optional in \<open>BookNote\<close> may also be present with the value
  \<open>undefined\<close> (\<open>Some None\<close>), which the object spread copies.
\<close>

record NoteUpdates =
  u_note_id :: "jsstring option"
  u_bookTitle :: "jsstring option"
  u_bookAuthor :: "jsstring option option"
  u_noteType :: "NoteType option"
  u_content :: "jsstring option"
  u_position :: "int option option"
  u_location :: "jsstring option option"
  u_chapter :: "jsstring option option"
  u_createdAt :: "int option"
  u_updatedAt :: "int option option"
  u_tags :: "jsstring list option option"
  u_color :: "jsstring option option"
  u_source :: "Source option"

text \<open>\<^verbatim>\<open>{ ...note, ...updates }\<close>: the fields present in \<open>updates\<close> replace those of \<open>note\<close>.\<close>

definition spread :: "BookNote \<Rightarrow> NoteUpdates \<Rightarrow> BookNote" where
  "spread n u =
     \<lparr> note_id = (case u_note_id u of None \<Rightarrow> note_id n | Some v \<Rightarrow> v),
       bookTitle = (case u_bookTitle u of None \<Rightarrow> bookTitle n | Some v \<Rightarrow> v),
       bookAuthor = (case u_bookAuthor u of None \<Rightarrow> bookAuthor n | Some v \<Rightarrow> v),
       noteType = (case u_noteType u of None \<Rightarrow> noteType n | Some v \<Rightarrow> v),
       content = (case u_content u of None \<Rightarrow> content n | Some v \<Rightarrow> v),
       position = (case u_position u of None \<Rightarrow> position n | Some v \<Rightarrow> v),
       location = (case u_location u of None \<Rightarrow> location n | Some v \<Rightarrow> v),
       note_chapter = (case u_chapter u of None \<Rightarrow> note_chapter n | Some v \<Rightarrow> v),
       createdAt = (case u_createdAt u of None \<Rightarrow> createdAt n | Some v \<Rightarrow> v),
       updatedAt = (case u_updatedAt u of None \<Rightarrow> updatedAt n | Some v \<Rightarrow> v),
       tags = (case u_tags u of None \<Rightarrow> tags n | Some v \<Rightarrow> v),
       color = (case u_color u of None \<Rightarrow> color n | Some v \<Rightarrow> v),
       source = (case u_source u of None \<Rightarrow> source n | Some v \<Rightarrow> v) \<rparr>"

section \<open>The annotation store (main/services/NotesManager.ts)\<close>

text \<open>
  The state of a \<open>NotesManager\<close> that the store operations read and write: the flat
  index \<open>this.notes\<close> (id to annotation), the book index \<open>this.books\<close> (title to
  bundle), and the events handed to \<open>emit\<close>, oldest first.
\<close>

datatype Event = notes_updated jsstring | notes_deleted jsstring

record NotesManager =
  this_notes :: "(jsstring \<times> BookNote) list"
  this_books :: "(jsstring \<times> ParsedBookData) list"
  emitted :: "Event list"

definition getBook :: "NotesManager \<Rightarrow> jsstring \<Rightarrow> ParsedBookData option" where
  "getBook m bookTitle' = map_of (this_books m) bookTitle'"

definition getNoteById :: "NotesManager \<Rightarrow> jsstring \<Rightarrow> BookNote option" where
  "getNoteById m noteId = map_of (this_notes m) noteId"

definition getNotesByBook :: "NotesManager \<Rightarrow> jsstring \<Rightarrow> BookNote list" where
  "getNotesByBook m bookTitle' =
     (case map_of (this_books m) bookTitle' of None \<Rightarrow> [] | Some book \<Rightarrow> book_notes book)"

text \<open>
  \<open>updateNote\<close>. \<open>now\<close> is the clock reading of \<^verbatim>\<open>new Date()\<close>. The result pairs the
  returned boolean with the state afterwards.
\<close>

definition updateNote ::
  "int \<Rightarrow> jsstring \<Rightarrow> NoteUpdates \<Rightarrow> NotesManager \<Rightarrow> bool \<times> NotesManager" where
  "updateNote now noteId updates m =
     (case map_of (this_notes m) noteId of
        None \<Rightarrow> (False, m)
      | Some n \<Rightarrow>
          let updatedNote = (spread n updates)\<lparr>updatedAt := Some now\<rparr>;
              m1 = m\<lparr>this_notes := Map_set noteId updatedNote (this_notes m)\<rparr>;
              m2 = (case map_of (this_books m1) (bookTitle n) of
                      None \<Rightarrow> m1
                    | Some book \<Rightarrow>
                        (case findIndex (\<lambda>x. note_id x = noteId) (book_notes book) of
                           None \<Rightarrow> m1
                         | Some noteIndex \<Rightarrow>
                             m1\<lparr>this_books :=
                                  Map_set (bookTitle n)
                                    (book\<lparr>book_notes := (book_notes book)[noteIndex := updatedNote]\<rparr>)
                                    (this_books m1)\<rparr>))
          in (True, m2\<lparr>emitted := emitted m2 @ [notes_updated noteId]\<rparr>))"

definition deleteNote :: "jsstring \<Rightarrow> NotesManager \<Rightarrow> bool \<times> NotesManager" where
  "deleteNote noteId m =
     (case map_of (this_notes m) noteId of
        None \<Rightarrow> (False, m)
      | Some n \<Rightarrow>
          let m1 = m\<lparr>this_notes := Map_delete noteId (this_notes m)\<rparr>;
              m2 = (case map_of (this_books m1) (bookTitle n) of
                      None \<Rightarrow> m1
                    | Some book \<Rightarrow>
                        let kept = filter (\<lambda>x. note_id x \<noteq> noteId) (book_notes book)
                        in m1\<lparr>this_books :=
                                Map_set (bookTitle n)
                                  (book\<lparr>book_notes := kept,
                                        metadata := (metadata book)\<lparr>totalNotes := length kept\<rparr>\<rparr>)
                                  (this_books m1)\<rparr>)
          in (True, m2\<lparr>emitted := emitted m2 @ [notes_deleted noteId]\<rparr>))"

definition deleteBook :: "jsstring \<Rightarrow> NotesManager \<Rightarrow> bool \<times> NotesManager" where
  "deleteBook bookTitle' m =
     (case map_of (this_books m) bookTitle' of
        None \<Rightarrow> (False, m)
      | Some book \<Rightarrow>
          (True,
           m\<lparr>this_notes := fold (\<lambda>n idx. Map_delete (note_id n) idx) (book_notes book) (this_notes m),
             this_books := Map_delete bookTitle' (this_books m)\<rparr>))"

text \<open>
  \<open>storeParsedData\<close>, the ingestion routine of \<open>importNotes\<close> and \<open>loadFromStorage\<close>.

  \<open>storeNote bookTitle' k\<close> is one call of the \<open>forEach\<close> callback, for the element at
  index \<open>k\<close>. The array that \<open>forEach\<close> walks, \<open>updatedData.notes\<close>, is the array of the
  bundle stored under \<open>bookTitle'\<close> just before the loop, so the callback reads its
  element from the array that earlier calls have written to (\<open>forEach\<close> reads each
  element when it reaches its index). The entry under \<open>bookTitle'\<close> is present during
  the whole loop; the branch for its absence is never taken.
\<close>

definition storeNote :: "jsstring \<Rightarrow> nat \<Rightarrow> NotesManager \<Rightarrow> NotesManager" where
  "storeNote bookTitle' k m =
     (case map_of (this_books m) bookTitle' of
        None \<Rightarrow> m
      | Some book \<Rightarrow>
          let n = book_notes book ! k;
              noteId = uniqueName (map fst (this_notes m)) (note_id n) (note_id n) 1;
              updatedNote = n\<lparr>note_id := noteId\<rparr>;
              m1 = m\<lparr>this_notes := Map_set noteId updatedNote (this_notes m)\<rparr>
          in (case findIndex (\<lambda>x. note_id x = note_id n) (book_notes book) of
                None \<Rightarrow> m1
              | Some noteIndex \<Rightarrow>
                  m1\<lparr>this_books :=
                       Map_set bookTitle'
                         (book\<lparr>book_notes := (book_notes book)[noteIndex := updatedNote]\<rparr>)
                         (this_books m1)\<rparr>))"

definition storeParsedData :: "ParsedBookData \<Rightarrow> NotesManager \<Rightarrow> NotesManager" where
  "storeParsedData data m =
     (let bookTitle' =
            uniqueName (map fst (this_books m)) (title (metadata data)) (title (metadata data)) 1;
          updatedData =
            data\<lparr>metadata := (metadata data)\<lparr>title := bookTitle'\<rparr>,
                 book_notes := map (\<lambda>n. n\<lparr>bookTitle := bookTitle'\<rparr>) (book_notes data)\<rparr>;
          m1 = m\<lparr>this_books := Map_set bookTitle' updatedData (this_books m)\<rparr>
      in fold (storeNote bookTitle') [0..<length (book_notes updatedData)] m1)"

text \<open>
  \<open>searchNotes\<close>. \<open>toLowerCase\<close> is the built-in \<^verbatim>\<open>String.prototype.toLowerCase\<close>, taken as
  a parameter. \<^verbatim>\<open>note.chapter && ...\<close> is false for an absent and for an empty chapter;
  \<^verbatim>\<open>note.tags && ...\<close> is false for absent tags only (an empty array is truthy).
\<close>

definition noteMatches :: "(jsstring \<Rightarrow> jsstring) \<Rightarrow> jsstring \<Rightarrow> BookNote \<Rightarrow> bool" where
  "noteMatches toLowerCase searchTerm n =
     (str_includes (toLowerCase (content n)) searchTerm \<or>
      str_includes (toLowerCase (bookTitle n)) searchTerm \<or>
      (case note_chapter n of
         None \<Rightarrow> False
       | Some c \<Rightarrow> c \<noteq> [] \<and> str_includes (toLowerCase c) searchTerm) \<or>
      (case tags n of
         None \<Rightarrow> False
       | Some ts \<Rightarrow> list_ex (\<lambda>tag. str_includes (toLowerCase tag) searchTerm) ts))"

definition searchNotes ::
  "(jsstring \<Rightarrow> jsstring) \<Rightarrow> jsstring \<Rightarrow> NotesManager \<Rightarrow> BookNote list" where
  "searchNotes toLowerCase query m =
     filter (noteMatches toLowerCase (toLowerCase query)) (map snd (this_notes m))"

text \<open>
  \<open>toLowerCase\<close> on strings of ASCII code units and of code units without case (CJK):
  the letters \<open>A\<close> to \<open>Z\<close> move to \<open>a\<close> to \<open>z\<close>. It instantiates the parameter in the
  examples.
\<close>

definition ascii_toLowerCase :: "jsstring \<Rightarrow> jsstring" where
  "ascii_toLowerCase s = map (\<lambda>c. if 65 \<le> c \<and> c \<le> 90 then c + 32 else c) s"

section \<open>The renderer (main/formatters/MarkdownFormatter.ts)\<close>

datatype SortBy = by_position | by_date | by_chapter

text \<open>\<open>FormatOptions\<close>; an absent option is \<open>None\<close>. The \<open>template\<close> option is never read.\<close>

record FormatOptions =
  includeMetadata :: "bool option"
  includeLocation :: "bool option"
  includeTags :: "bool option"
  groupByChapter :: "bool option"
  sortBy :: "SortBy option"

text \<open>
  The order of \<open>sortedNotes\<close> in \<open>format\<close> and in \<open>formatBook\<close> (the same lines in
  both):
  \<^verbatim>\<open>let sortedNotes = [...notes];
  if (sortBy === 'position') sortedNotes.sort((a, b) => (a.position || 0) - (b.position || 0));
  else if (sortBy === 'date') sortedNotes.sort((a, b) => a.createdAt.getTime() - b.createdAt.getTime());\<close>
  \<open>sortBy\<close> defaults to \<open>'position'\<close>. \<open>Array.prototype.sort\<close> is stable, so with a
  comparator that subtracts keys it is the stable sort by that key. There is no branch
  for \<open>'chapter'\<close>.
\<close>

definition sortedNotes :: "FormatOptions \<Rightarrow> BookNote list \<Rightarrow> BookNote list" where
  "sortedNotes options ns =
     (case (case sortBy options of None \<Rightarrow> by_position | Some s \<Rightarrow> s) of
        by_position \<Rightarrow> sort_key (\<lambda>n. case position n of None \<Rightarrow> 0 | Some p \<Rightarrow> p) ns
      | by_date \<Rightarrow> sort_key createdAt ns
      | by_chapter \<Rightarrow> ns)"

text \<open>
  \<open>groupNotesByChapter\<close>: a \<open>Map\<close> from chapter label to the annotations of that chapter,
  in the order in which the labels are first seen; an absent or empty chapter goes under
  the label \<open>unclassified\<close> (the three code units of the placeholder).
\<close>

definition unclassified :: jsstring where
  "unclassified = [26410, 20998, 31867]"

definition groupNotesByChapter :: "BookNote list \<Rightarrow> (jsstring \<times> BookNote list) list" where
  "groupNotesByChapter ns =
     fold (\<lambda>n chapters.
             let ch = (case note_chapter n of
                         None \<Rightarrow> unclassified
                       | Some c \<Rightarrow> if c = [] then unclassified else c)
             in Map_set ch ((case map_of chapters ch of None \<Rightarrow> [] | Some xs \<Rightarrow> xs) @ [n])
                  chapters)
          ns []"

text \<open>
  The annotations in the order in which \<open>format\<close> and \<open>formatBook\<close> write their blocks
  into the document: \<open>formatNotes\<close> writes one block per annotation of the list it is
  given, in list order; it is given \<open>sortedNotes\<close>, or with \<open>groupByChapter\<close> the groups
  of \<open>sortedNotes\<close> one after the other. (For an empty list both functions return
  before this point, with a document without blocks.)
\<close>

definition emittedNotes :: "FormatOptions \<Rightarrow> BookNote list \<Rightarrow> BookNote list" where
  "emittedNotes options ns =
     (if (case groupByChapter options of None \<Rightarrow> False | Some g \<Rightarrow> g)
      then concat (map snd (groupNotesByChapter (sortedNotes options ns)))
      else sortedNotes options ns)"

section \<open>JSON values and JSON.parse\<close>

text \<open>
  The values that the parsers handle at run time: what \<open>JSON.parse\<close> returns, and
  \<open>NaN\<close>, which \<open>parseInt\<close> can return. \<open>JNum m e\<close> is the number literal with the
  decimal value \<open>m * 10^e\<close>; the run-time number is the double nearest to it.
  \<open>undefined\<close> is not a value of this type: a property that may be undefined is a
  \<open>jsval option\<close>.
\<close>

datatype jsval =
    JNull
  | JBool bool
  | JNum int int
  | JNaN
  | JStr jsstring
  | JArr "jsval list"
  | JObj "(jsstring \<times> jsval) list"

text \<open>
  \<open>JSON.parse\<close>, the ECMAScript built-in, as a recursive-descent parser of the JSON
  grammar. White space is space, tab, line feed and carriage return. A string is
  quoted and holds no control character; a backslash escapes a quote, a backslash or a
  slash, stands with \<open>b\<close>, \<open>f\<close>, \<open>n\<close>, \<open>r\<close>, \<open>t\<close> for a control character, or with \<open>u\<close> and
  four hexadecimal digits for a code unit. A number is
  \<open>-?(0|[1-9][0-9]*)(.[0-9]+)?([eE][+-]?[0-9]+)?\<close>. \<open>None\<close> is the \<open>SyntaxError\<close>.
\<close>

definition is_json_space :: "nat \<Rightarrow> bool" where
  "is_json_space c = (c = 32 \<or> c = 9 \<or> c = 10 \<or> c = 13)"

definition is_digit :: "nat \<Rightarrow> bool" where
  "is_digit c = (48 \<le> c \<and> c \<le> 57)"

definition hex_value :: "nat \<Rightarrow> nat option" where
  "hex_value c =
     (if 48 \<le> c \<and> c \<le> 57 then Some (c - 48)
      else if 97 \<le> c \<and> c \<le> 102 then Some (c - 87)
      else if 65 \<le> c \<and> c \<le> 70 then Some (c - 55)
      else None)"

definition escape_value :: "nat \<Rightarrow> nat option" where
  "escape_value e =
     (if e = 34 then Some 34 else if e = 92 then Some 92 else if e = 47 then Some 47
      else if e = 98 then Some 8 else if e = 102 then Some 12 else if e = 110 then Some 10
      else if e = 114 then Some 13 else if e = 116 then Some 9 else None)"

text \<open>The rest of a string literal after its opening quote: the string and what follows it.\<close>

fun json_string :: "jsstring \<Rightarrow> (jsstring \<times> jsstring) option" where
  "json_string [] = None"
| "json_string (c # cs) =
     (if c = 34 then Some ([], cs)
      else if c = 92 then
        (case cs of
           [] \<Rightarrow> None
         | e # r \<Rightarrow>
             if e = 117 then
               (case r of
                  h1 # h2 # h3 # h4 # r' \<Rightarrow>
                    do {
                      a \<leftarrow> hex_value h1;
                      b \<leftarrow> hex_value h2;
                      c' \<leftarrow> hex_value h3;
                      d \<leftarrow> hex_value h4;
                      (s, rest) \<leftarrow> json_string r';
                      Some ((((a * 16 + b) * 16 + c') * 16 + d) # s, rest)
                    }
                | _ \<Rightarrow> None)
             else
               do {
                 x \<leftarrow> escape_value e;
                 (s, rest) \<leftarrow> json_string r;
                 Some (x # s, rest)
               })
      else if c < 32 then None
      else do { (s, rest) \<leftarrow> json_string cs; Some (c # s, rest) })"

text \<open>A number literal: sign, integer part, fraction, exponent.\<close>

definition digits_value :: "jsstring \<Rightarrow> nat" where
  "digits_value ds = foldl (\<lambda>a d. 10 * a + (d - 48)) 0 ds"

definition json_fraction :: "jsstring \<Rightarrow> (jsstring \<times> jsstring) option" where
  "json_fraction s =
     (case s of
        [] \<Rightarrow> Some ([], s)
      | c # r \<Rightarrow>
          if c = 46
          then (if takeWhile is_digit r = [] then None
                else Some (takeWhile is_digit r, dropWhile is_digit r))
          else Some ([], s))"

definition json_exponent :: "jsstring \<Rightarrow> (int \<times> jsstring) option" where
  "json_exponent s =
     (case s of
        [] \<Rightarrow> Some (0, s)
      | c # r \<Rightarrow>
          if c = 101 \<or> c = 69
          then (let (eneg, r1) =
                      (case r of
                         [] \<Rightarrow> (False, r)
                       | g # r' \<Rightarrow>
                           if g = 45 then (True, r')
                           else if g = 43 then (False, r') else (False, r));
                    ed = takeWhile is_digit r1
                in if ed = [] then None
                   else Some ((if eneg then - int (digits_value ed) else int (digits_value ed)),
                              dropWhile is_digit r1))
          else Some (0, s))"

definition json_number :: "jsstring \<Rightarrow> (jsval \<times> jsstring) option" where
  "json_number s =
     (let (neg, s1) = (case s of
                         [] \<Rightarrow> (False, s)
                       | c # r \<Rightarrow> if c = 45 then (True, r) else (False, s));
          ip = takeWhile is_digit s1
      in if ip = [] \<or> (hd ip = 48 \<and> length ip > 1) then None
         else do {
           (fp, s3) \<leftarrow> json_fraction (dropWhile is_digit s1);
           (ex, s4) \<leftarrow> json_exponent s3;
           let m = int (digits_value (ip @ fp));
           Some (JNum (if neg then - m else m) (ex - int (length fp)), s4)
         })"

text \<open>The values without parts: \<open>null\<close>, \<open>true\<close>, \<open>false\<close>, a string, a number.\<close>

definition json_atom :: "jsstring \<Rightarrow> (jsval \<times> jsstring) option" where
  "json_atom s =
     (case s of
        [] \<Rightarrow> None
      | c # cs \<Rightarrow>
          if c = 110 then (if prefix (ascii ''ull'') cs then Some (JNull, drop 3 cs) else None)
          else if c = 116 then
            (if prefix (ascii ''rue'') cs then Some (JBool True, drop 3 cs) else None)
          else if c = 102 then
            (if prefix (ascii ''alse'') cs then Some (JBool False, drop 4 cs) else None)
          else if c = 34 then do { (str, r) \<leftarrow> json_string cs; Some (JStr str, r) }
          else json_number s)"

text \<open>\<open>closes c s\<close>: white space, then the code unit \<open>c\<close>; what follows it.\<close>

definition closes :: "nat \<Rightarrow> jsstring \<Rightarrow> jsstring option" where
  "closes c s =
     (case dropWhile is_json_space s of
        [] \<Rightarrow> None
      | d # r \<Rightarrow> if d = c then Some r else None)"

text \<open>
  A value, the elements of a non-empty array after \<open>[\<close>, the members of a non-empty
  object after \<open>{\<close>. The first argument bounds the number of nested calls;
  \<open>JSON_parse\<close> allows one more than the length of the text, which is enough for every
  text (theorem \<open>JSON_parse_fuel_suffices\<close> below).
\<close>

fun json_value :: "nat \<Rightarrow> jsstring \<Rightarrow> (jsval \<times> jsstring) option"
  and json_elements :: "nat \<Rightarrow> jsstring \<Rightarrow> (jsval list \<times> jsstring) option"
  and json_members :: "nat \<Rightarrow> jsstring \<Rightarrow> ((jsstring \<times> jsval) list \<times> jsstring) option"
where
  "json_value 0 s = None"
| "json_value (Suc n) s =
     (case dropWhile is_json_space s of
        [] \<Rightarrow> None
      | c # cs \<Rightarrow>
          if c = 91 then
            (case closes 93 cs of
               Some r \<Rightarrow> Some (JArr [], r)
             | None \<Rightarrow> do { (vs, r) \<leftarrow> json_elements n cs; Some (JArr vs, r) })
          else if c = 123 then
            (case closes 125 cs of
               Some r \<Rightarrow> Some (JObj [], r)
             | None \<Rightarrow> do { (kvs, r) \<leftarrow> json_members n cs; Some (JObj kvs, r) })
          else json_atom (c # cs))"
| "json_elements 0 s = None"
| "json_elements (Suc n) s =
     do {
       (v, r) \<leftarrow> json_value n s;
       case closes 93 r of
         Some r' \<Rightarrow> Some ([v], r')
       | None \<Rightarrow>
           do {
             r' \<leftarrow> closes 44 r;
             (vs, r'') \<leftarrow> json_elements n r';
             Some (v # vs, r'')
           }
     }"
| "json_members 0 s = None"
| "json_members (Suc n) s =
     do {
       s1 \<leftarrow> closes 34 s;
       (k, s2) \<leftarrow> json_string s1;
       s3 \<leftarrow> closes 58 s2;
       (v, r) \<leftarrow> json_value n s3;
       case closes 125 r of
         Some r' \<Rightarrow> Some ([(k, v)], r')
       | None \<Rightarrow>
           do {
             r' \<leftarrow> closes 44 r;
             (kvs, r'') \<leftarrow> json_members n r';
             Some ((k, v) # kvs, r'')
           }
     }"

text \<open>\<open>JSON.parse\<close>: one value, then white space up to the end of the text.\<close>

definition JSON_parse :: "jsstring \<Rightarrow> jsval option" where
  "JSON_parse s =
     do {
       (v, r) \<leftarrow> json_value (Suc (length s)) s;
       if dropWhile is_json_space r = [] then Some v else None
     }"

declare json_value.simps [simp del] json_elements.simps [simp del] json_members.simps [simp del]

lemmas json_eval =
  json_value.simps json_elements.simps json_members.simps JSON_parse_def ascii_def
  is_json_space_def closes_def json_atom_def json_number_def json_fraction_def
  json_exponent_def is_digit_def digits_value_def hex_value_def escape_value_def

section \<open>Strings and regular expressions of the parsers\<close>

text \<open>
  White space as \<open>trim\<close> and the regular expression class \<open>\s\<close> see it, and the line
  terminators, which \<open>.\<close> does not match.
\<close>

definition is_space :: "nat \<Rightarrow> bool" where
  "is_space c =
     (c \<in> set [9, 10, 11, 12, 13, 32, 160, 5760, 8232, 8233, 8239, 8287, 12288, 65279] \<or>
      (8192 \<le> c \<and> c \<le> 8202))"

definition is_line_terminator :: "nat \<Rightarrow> bool" where
  "is_line_terminator c = (c = 10 \<or> c = 13 \<or> c = 8232 \<or> c = 8233)"

definition trim :: "jsstring \<Rightarrow> jsstring" where
  "trim s = rev (dropWhile is_space (rev (dropWhile is_space s)))"

text \<open>\<^verbatim>\<open>s.split(sep)\<close> for a separator of one code unit.\<close>

fun split :: "nat \<Rightarrow> jsstring \<Rightarrow> jsstring list" where
  "split sep [] = [[]]"
| "split sep (c # cs) =
     (if c = sep then [] # split sep cs
      else (case split sep cs of [] \<Rightarrow> [[c]] | l # ls \<Rightarrow> (c # l) # ls))"

text \<open>
  \<open>String.prototype.match\<close> without the \<open>g\<close> flag tries the pattern at every position
  from the left, the end of the string included, and returns the first match.
  \<open>first_match f\<close> does so for a pattern \<open>f\<close> that is anchored at the start of its
  argument and returns the captured group.
\<close>

fun first_match :: "(jsstring \<Rightarrow> 'a option) \<Rightarrow> jsstring \<Rightarrow> 'a option" where
  "first_match f [] = f []"
| "first_match f (c # cs) =
     (case f (c # cs) of Some r \<Rightarrow> Some r | None \<Rightarrow> first_match f cs)"

text \<open>
  \<^verbatim>\<open>/<tag>(.*?)<\/tag>/\<close> anchored at the start: after the opening tag, the shortest run
  of code units that \<open>.\<close> matches (\<open>ok\<close>) and that is followed by the closing tag.
\<close>

fun lazy_until :: "(nat \<Rightarrow> bool) \<Rightarrow> jsstring \<Rightarrow> jsstring \<Rightarrow> jsstring option" where
  "lazy_until ok close [] = (if close = [] then Some [] else None)"
| "lazy_until ok close (c # cs) =
     (if prefix close (c # cs) then Some []
      else if ok c then map_option ((#) c) (lazy_until ok close cs)
      else None)"

definition tag_at :: "(nat \<Rightarrow> bool) \<Rightarrow> jsstring \<Rightarrow> jsstring \<Rightarrow> jsstring \<Rightarrow> jsstring option" where
  "tag_at ok open' close s =
     (if prefix open' s then lazy_until ok close (drop (length open') s) else None)"

definition match_tag :: "string \<Rightarrow> jsstring \<Rightarrow> jsstring option" where
  "match_tag name s =
     first_match
       (tag_at (\<lambda>c. \<not> is_line_terminator c)
          (ascii ''<'' @ ascii name @ ascii ''>'') (ascii ''</'' @ ascii name @ ascii ''>''))
       s"

text \<open>
  \<^verbatim>\<open>content.match(/<note>(.*?)<\/note>/gs)\<close>: all matches from left to right, each search
  starting where the last match ended; with the \<open>s\<close> flag \<open>.\<close> matches every code unit.
  The result holds the matched texts, tags included (no match: \<open>null\<close>, here the empty
  list, which the caller treats alike).
\<close>

function match_all_notes :: "jsstring \<Rightarrow> jsstring list" where
  "match_all_notes [] = []"
| "match_all_notes (c # cs) =
     (case tag_at (\<lambda>c. True) (ascii ''<note>'') (ascii ''</note>'') (c # cs) of
        None \<Rightarrow> match_all_notes cs
      | Some g \<Rightarrow>
          (ascii ''<note>'' @ g @ ascii ''</note>'') #
          match_all_notes (drop (length (ascii ''<note>'' @ g @ ascii ''</note>'')) (c # cs)))"
  by pat_completeness auto
termination
  by (relation "measure length") (auto simp: ascii_def)

text \<open>
  The pattern of a label line, a label, then a colon (ASCII or full width), then
  \<^verbatim>\<open>\s*(.+)\<close>, anchored at the start: after the label and the colon, \<open>\s*\<close> takes white space
  greedily, line terminators included, and gives it back one unit at a time until
  \<open>(.+)\<close> finds a code unit that is not a line terminator; the group runs to the next
  line terminator.
\<close>

fun spaces_then_rest :: "jsstring \<Rightarrow> jsstring option" where
  "spaces_then_rest [] = None"
| "spaces_then_rest (c # cs) =
     (if is_space c then
        (case spaces_then_rest cs of
           Some g \<Rightarrow> Some g
         | None \<Rightarrow>
             if is_line_terminator c then None
             else Some (takeWhile (\<lambda>x. \<not> is_line_terminator x) (c # cs)))
      else Some (takeWhile (\<lambda>x. \<not> is_line_terminator x) (c # cs)))"

definition label_at :: "jsstring \<Rightarrow> jsstring \<Rightarrow> jsstring option" where
  "label_at label s =
     (if prefix label s then
        (case drop (length label) s of
           [] \<Rightarrow> None
         | d # rest \<Rightarrow> if d = 58 \<or> d = 65306 then spaces_then_rest rest else None)
      else None)"

definition match_label :: "jsstring \<Rightarrow> jsstring \<Rightarrow> jsstring option" where
  "match_label label s = first_match (label_at label) s"

text \<open>\<^verbatim>\<open>/^\d+$/\<close>.\<close>

definition all_digits :: "jsstring \<Rightarrow> bool" where
  "all_digits s = (s \<noteq> [] \<and> list_all is_digit s)"

section \<open>What the parsers return at run time\<close>

text \<open>
  \<open>parse\<close> is declared to return \<open>ParsedBookData\<close>, but the JSON path copies fields of
  the document into the result without checking their types. The result is therefore
  modelled with the run-time values: a field that \<open>parseJSON\<close> fills from the document is
  a \<open>jsval\<close>, an optional one a \<open>jsval option\<close>. A \<open>Date\<close> is recorded by how it was made:
  \<open>Date_now now\<close> is \<^verbatim>\<open>new Date()\<close> at the clock reading \<open>now\<close>, \<open>Date_of v\<close> is
  \<^verbatim>\<open>new Date(v)\<close>. One call of \<open>parse\<close> reads the clock as \<open>now\<close> throughout.
\<close>

datatype JsError = TypeError | SyntaxError

datatype JsDate = Date_now nat | Date_of jsval

text \<open>
  What \<open>mapNoteType\<close> returns at run time: one of the three note types, or, for a key
  that \<open>typeMap\<close> inherits from \<open>Object.prototype\<close>, the inherited member of that name.
\<close>

datatype JsNoteType = NoteType_of NoteType | Inherited_member jsstring

record JsNote =
  js_id :: jsstring
  js_bookTitle :: jsval
  js_bookAuthor :: "jsval option"
  js_noteType :: JsNoteType
  js_content :: jsval
  js_position :: jsval
  js_location :: "jsval option"
  js_chapter :: "jsval option"
  js_createdAt :: JsDate
  js_color :: "jsval option"
  js_source :: Source
  js_tags :: "jsval option"

record JsMetadata =
  js_title :: jsval
  js_author :: "jsval option"
  js_totalNotes :: nat
  js_lastSyncDate :: JsDate

record JsBookData =
  js_metadata :: JsMetadata
  js_notes :: "JsNote list"
  js_rawData :: jsval

text \<open>
  Truthiness, \<^verbatim>\<open>a || b\<close> for a possibly undefined \<open>b\<close> and for a \<open>b\<close> that is a value, and
  the property read \<^verbatim>\<open>v.name\<close> on a value that is not \<open>null\<close>: an own property of an
  object (the last one of that name in the document), \<open>undefined\<close> on everything else
  (no prototype has a property of any of the names read here).

  A number is falsy when its double is zero. The double nearest to \<open>m * 10^e\<close> is zero
  exactly when \<open>|m * 10^e|\<close> is at most \<open>2^-1075\<close>, half the smallest positive double (the
  tie goes to zero, the even neighbour).
\<close>

definition rounds_to_zero :: "int \<Rightarrow> int \<Rightarrow> bool" where
  "rounds_to_zero m e = (m = 0 \<or> (e < 0 \<and> \<bar>m\<bar> * 2 ^ 1075 \<le> 10 ^ nat (- e)))"

definition truthy :: "jsval \<Rightarrow> bool" where
  "truthy v =
     (case v of
        JNull \<Rightarrow> False
      | JBool b \<Rightarrow> b
      | JNum m e \<Rightarrow> \<not> rounds_to_zero m e
      | JNaN \<Rightarrow> False
      | JStr s \<Rightarrow> s \<noteq> []
      | JArr xs \<Rightarrow> True
      | JObj kvs \<Rightarrow> True)"

definition or_undef :: "jsval option \<Rightarrow> jsval option \<Rightarrow> jsval option" where
  "or_undef a b = (case a of None \<Rightarrow> b | Some v \<Rightarrow> if truthy v then Some v else b)"

definition or_value :: "jsval option \<Rightarrow> jsval \<Rightarrow> jsval" where
  "or_value a b = (case a of None \<Rightarrow> b | Some v \<Rightarrow> if truthy v then v else b)"

definition get_prop :: "jsval \<Rightarrow> string \<Rightarrow> jsval option" where
  "get_prop v name = (case v of JObj kvs \<Rightarrow> map_of (rev kvs) (ascii name) | _ \<Rightarrow> None)"

text \<open>
  The conversion of a value to a primitive, which \<^verbatim>\<open>typeMap[type]\<close> and \<^verbatim>\<open>new Date(v)\<close>
  apply to an object or array. For an object of a JSON document it calls
  \<open>Object.prototype.toString\<close>, unless the object has an own property \<open>toString\<close>: that
  is never a function, no method is left to call, and the conversion throws a
  \<open>TypeError\<close>. For an array it joins the conversions of the elements.
\<close>

fun toPrimitive_throws :: "jsval \<Rightarrow> bool" where
  "toPrimitive_throws (JObj kvs) = (ascii ''toString'' \<in> set (map fst kvs))"
| "toPrimitive_throws (JArr xs) = list_ex toPrimitive_throws xs"
| "toPrimitive_throws v = False"

text \<open>
  The property key that a value stands for in \<^verbatim>\<open>typeMap[type]\<close>, where it can be the name
  of a property: a string is its own key, an array of one element has the key of that
  element. Every other value has a key that names no property of \<open>typeMap\<close>, own or
  inherited (\<open>None\<close>): the digits of a number, \<open>true\<close>, \<open>false\<close>, \<open>NaN\<close>,
  \<open>[object Object]\<close>, or a text with a comma.

  \<open>object_prototype_keys\<close> are the names of the properties of \<open>Object.prototype\<close>, which
  an object literal such as \<open>typeMap\<close> inherits. Each of them holds a function (under
  \<open>__proto__\<close>, the prototype object), so it is truthy.
\<close>

definition object_prototype_keys :: "jsstring list" where
  "object_prototype_keys =
     map ascii
       [''constructor'', ''__defineGetter__'', ''__defineSetter__'', ''hasOwnProperty'',
        ''__lookupGetter__'', ''__lookupSetter__'', ''isPrototypeOf'',
        ''propertyIsEnumerable'', ''toString'', ''valueOf'', ''__proto__'',
        ''toLocaleString'']"

fun key_string :: "jsval \<Rightarrow> jsstring option" where
  "key_string (JStr s) = Some s"
| "key_string (JArr [v]) = (case v of JNull \<Rightarrow> Some [] | _ \<Rightarrow> key_string v)"
| "key_string v = None"

text \<open>\<open>parseInt\<close> without radix: leading white space, a sign, then decimal digits, or hexadecimal digits after \<open>0x\<close>.\<close>

definition parseInt :: "jsstring \<Rightarrow> jsval" where
  "parseInt s =
     (let t = dropWhile is_space s;
          (neg, u) = (case t of
                        [] \<Rightarrow> (False, t)
                      | c # r \<Rightarrow> if c = 45 then (True, r) else if c = 43 then (False, r)
                                 else (False, t));
          hex = (prefix (ascii ''0x'') u \<or> prefix (ascii ''0X'') u);
          ds = (if hex then takeWhile (\<lambda>c. hex_value c \<noteq> None) (drop 2 u)
                else takeWhile is_digit u);
          n = (if hex then foldl (\<lambda>a d. 16 * a + (case hex_value d of None \<Rightarrow> 0 | Some x \<Rightarrow> x)) 0 ds
               else digits_value ds)
      in if ds = [] then JNaN else JNum (if neg then - int n else int n) 0)"

section \<open>DuokanParser (main/parsers/DuokanParser)\<close>

text \<open>
  The marker strings of the source, as code units: \<open>mk_duokan\<close> and \<open>mk_reading_notes\<close>
  are the two Chinese markers of \<open>validate\<close>, \<open>lbl_title\<close> and \<open>lbl_author\<close> the labels
  of the title and author lines. 31532 and 31456 are the two characters that frame a
  chapter heading.
\<close>

definition unknown_book :: jsstring where
  "unknown_book = ascii ''Unknown Book''"

definition mk_duokan :: jsstring where "mk_duokan = [22810, 30475]"
definition mk_reading_notes :: jsstring where "mk_reading_notes = [35835, 20070, 31508, 35760]"
definition lbl_title :: jsstring where "lbl_title = [20070, 21517]"
definition lbl_author :: jsstring where "lbl_author = [20316, 32773]"

text \<open>
  \<open>mapNoteType\<close>, \<^verbatim>\<open>typeMap[type] || 'highlight'\<close>: the six own keys of \<open>typeMap\<close>, then the
  inherited ones, then the default.
\<close>

definition Duokan_mapNoteType :: "jsval \<Rightarrow> JsNoteType" where
  "Duokan_mapNoteType t =
     (case key_string t of
        None \<Rightarrow> NoteType_of Highlight
      | Some k \<Rightarrow>
          if k = ascii ''highlight'' then NoteType_of Highlight
          else if k = ascii ''note'' then NoteType_of Note
          else if k = ascii ''bookmark'' then NoteType_of Bookmark
          else if k = [39640, 20142] then NoteType_of Highlight
          else if k = [31508, 35760] then NoteType_of Note
          else if k = [20070, 31614] then NoteType_of Bookmark
          else if k \<in> set object_prototype_keys then Inherited_member k
          else NoteType_of Highlight)"

definition Duokan_isValidJSON :: "jsstring \<Rightarrow> bool" where
  "Duokan_isValidJSON str = (JSON_parse str \<noteq> None)"

definition Duokan_isValidXML :: "jsstring \<Rightarrow> bool" where
  "Duokan_isValidXML str =
     (str_includes str (ascii ''<?xml'') \<or> str_includes str (ascii ''<notes>''))"

definition Duokan_validate :: "jsstring \<Rightarrow> bool" where
  "Duokan_validate content' =
     (str_includes content' (ascii ''duokan'') \<or>
      str_includes content' mk_duokan \<or>
      str_includes content' mk_reading_notes \<or>
      Duokan_isValidJSON content' \<or>
      Duokan_isValidXML content')"

text \<open>
  \<open>parseJSON\<close>. \<open>Duokan_jsonNote\<close> is the callback of \<open>data.notes.forEach\<close>. For an element
  that is \<open>null\<close> the first read of a property of \<open>note\<close> throws a \<open>TypeError\<close>
  (\<open>note.bookTitle\<close>, or \<open>note.author\<close> or \<open>note.type\<close> when the reads before it are
  cut short by \<open>||\<close>), and so do \<open>mapNoteType\<close> and \<^verbatim>\<open>new Date\<close> when their argument has
  no primitive value; the exception leaves \<open>forEach\<close> and \<open>parseJSON\<close>. All exceptions of
  the callback are \<open>TypeError\<close>s, so it does not matter which is thrown first. The \<open>try\<close>
  of \<open>parseJSON\<close> covers \<open>JSON.parse\<close> only, and \<open>data.notes\<close> throws when \<open>data\<close> is
  \<open>null\<close>.
\<close>

definition Duokan_jsonNote :: "nat \<Rightarrow> jsval \<Rightarrow> nat \<Rightarrow> jsval \<Rightarrow> JsError + JsNote" where
  "Duokan_jsonNote now data index n =
     (let type_key = or_value (get_prop n ''type'') (JStr (ascii ''highlight''));
          created = or_value (get_prop n ''createdAt'')
                      (or_value (get_prop n ''date'') (JNum (int now) 0))
      in if n = JNull \<or> toPrimitive_throws type_key \<or> toPrimitive_throws created
         then Inl TypeError
         else Inr
           \<lparr>js_id = ascii ''duokan_'' @ decimal index @ ascii ''_'' @ decimal now,
            js_bookTitle =
              or_value (get_prop data ''bookTitle'')
                (or_value (get_prop n ''bookTitle'') (JStr unknown_book)),
            js_bookAuthor = or_undef (get_prop data ''author'') (get_prop n ''author''),
            js_noteType = Duokan_mapNoteType type_key,
            js_content = or_value (get_prop n ''content'') (or_value (get_prop n ''text'') (JStr [])),
            js_position =
              or_value (get_prop n ''position'')
                (or_value (get_prop n ''location'') (JNum (int index) 0)),
            js_location =
              Some (or_value (get_prop n ''location'') (or_value (get_prop n ''page'') (JStr []))),
            js_chapter = or_undef (get_prop n ''chapter'') (get_prop n ''section''),
            js_createdAt = Date_of created,
            js_color = get_prop n ''color'',
            js_source = Duokan,
            js_tags = Some (or_value (get_prop n ''tags'') (JArr []))\<rparr>)"

fun Duokan_jsonNotes :: "nat \<Rightarrow> jsval \<Rightarrow> nat \<Rightarrow> jsval list \<Rightarrow> JsError + JsNote list" where
  "Duokan_jsonNotes now data index [] = Inr []"
| "Duokan_jsonNotes now data index (n # rest) =
     (case Duokan_jsonNote now data index n of
        Inl e \<Rightarrow> Inl e
      | Inr x \<Rightarrow>
          (case Duokan_jsonNotes now data (Suc index) rest of
             Inl e \<Rightarrow> Inl e
           | Inr xs \<Rightarrow> Inr (x # xs)))"

definition Duokan_parseJSON :: "nat \<Rightarrow> jsstring \<Rightarrow> JsError + JsBookData" where
  "Duokan_parseJSON now content' =
     (case JSON_parse content' of
        None \<Rightarrow>
          Inr \<lparr>js_metadata = \<lparr>js_title = JStr unknown_book, js_author = Some (JStr []),
                               js_totalNotes = 0, js_lastSyncDate = Date_now now\<rparr>,
               js_notes = [], js_rawData = JStr content'\<rparr>
      | Some data \<Rightarrow>
          if data = JNull then Inl TypeError
          else
            (case (case get_prop data ''notes'' of
                     Some (JArr xs) \<Rightarrow> Duokan_jsonNotes now data 0 xs
                   | _ \<Rightarrow> Inr []) of
               Inl e \<Rightarrow> Inl e
             | Inr ns \<Rightarrow>
                 Inr \<lparr>js_metadata =
                        \<lparr>js_title = or_value (get_prop data ''bookTitle'')
                                      (or_value (get_prop data ''title'') (JStr unknown_book)),
                         js_author = get_prop data ''author'',
                         js_totalNotes = length ns,
                         js_lastSyncDate = Date_now now\<rparr>,
                      js_notes = ns, js_rawData = data\<rparr>))"

text \<open>\<open>parseXML\<close>; \<open>index\<close> counts the matches of \<open>note\<close>, also those without content.\<close>

fun Duokan_xmlNotes ::
  "nat \<Rightarrow> jsstring option \<Rightarrow> jsstring option \<Rightarrow> nat \<Rightarrow> jsstring list \<Rightarrow> JsNote list" where
  "Duokan_xmlNotes now titleMatch authorMatch index [] = []"
| "Duokan_xmlNotes now titleMatch authorMatch index (noteMatch # rest) =
     (case match_tag ''content'' noteMatch of
        None \<Rightarrow> Duokan_xmlNotes now titleMatch authorMatch (Suc index) rest
      | Some c \<Rightarrow>
          \<lparr>js_id = ascii ''duokan_xml_'' @ decimal index @ ascii ''_'' @ decimal now,
           js_bookTitle = or_value (map_option JStr titleMatch) (JStr unknown_book),
           js_bookAuthor = map_option JStr authorMatch,
           js_noteType = NoteType_of Highlight,
           js_content = JStr c,
           js_position = (case match_tag ''position'' noteMatch of
                            None \<Rightarrow> JNum (int index) 0
                          | Some p \<Rightarrow> parseInt p),
           js_location = None,
           js_chapter = map_option JStr (match_tag ''chapter'' noteMatch),
           js_createdAt = (case match_tag ''date'' noteMatch of
                             None \<Rightarrow> Date_now now
                           | Some d \<Rightarrow> Date_of (JStr d)),
           js_color = None,
           js_source = Duokan,
           js_tags = None\<rparr>
          # Duokan_xmlNotes now titleMatch authorMatch (Suc index) rest)"

definition Duokan_parseXML :: "nat \<Rightarrow> jsstring \<Rightarrow> JsBookData" where
  "Duokan_parseXML now content' =
     (let titleMatch = match_tag ''bookTitle'' content';
          authorMatch = match_tag ''author'' content';
          ns = Duokan_xmlNotes now titleMatch authorMatch 0 (match_all_notes content')
      in \<lparr>js_metadata =
            \<lparr>js_title = or_value (map_option JStr titleMatch) (JStr unknown_book),
             js_author = map_option JStr authorMatch,
             js_totalNotes = length ns,
             js_lastSyncDate = Date_now now\<rparr>,
          js_notes = ns, js_rawData = JStr content'\<rparr>)"

text \<open>
  \<open>parsePlainText\<close>. \<open>chapter_heading\<close> is \<^verbatim>\<open>/^X.*Y/\<close> for the two chapter characters.
  \<open>Duokan_textNotes\<close> is the \<open>forEach\<close> over the non-blank lines with the counter
  \<open>noteIndex\<close>.
\<close>

definition chapter_heading :: "jsstring \<Rightarrow> bool" where
  "chapter_heading line =
     (case line of
        [] \<Rightarrow> False
      | c # r \<Rightarrow> c = 31532 \<and> str_includes (takeWhile (\<lambda>x. \<not> is_line_terminator x) r) [31456])"

fun Duokan_textNotes :: "nat \<Rightarrow> jsstring \<Rightarrow> jsstring \<Rightarrow> nat \<Rightarrow> jsstring list \<Rightarrow> JsNote list" where
  "Duokan_textNotes now currentBookTitle currentAuthor noteIndex [] = []"
| "Duokan_textNotes now currentBookTitle currentAuthor noteIndex (l # rest) =
     (let line = trim l in
      if str_includes line lbl_title \<or> str_includes line lbl_author
      then Duokan_textNotes now currentBookTitle currentAuthor noteIndex rest
      else if prefix [31532] line \<and> str_includes line [31456]
      then Duokan_textNotes now currentBookTitle currentAuthor noteIndex rest
      else if all_digits line
      then Duokan_textNotes now currentBookTitle currentAuthor noteIndex rest
      else if length line > 5 \<and>
              \<not> str_includes line lbl_title \<and>
              \<not> str_includes line lbl_author \<and>
              \<not> str_includes line mk_reading_notes \<and>
              \<not> chapter_heading line \<and>
              \<not> all_digits line
      then \<lparr>js_id = ascii ''duokan_txt_'' @ decimal noteIndex @ ascii ''_'' @ decimal now,
            js_bookTitle = JStr currentBookTitle,
            js_bookAuthor = Some (JStr currentAuthor),
            js_noteType = NoteType_of Highlight,
            js_content = JStr line,
            js_position = JNum (int noteIndex) 0,
            js_location = None,
            js_chapter = None,
            js_createdAt = Date_now now,
            js_color = None,
            js_source = Duokan,
            js_tags = None\<rparr>
           # Duokan_textNotes now currentBookTitle currentAuthor (Suc noteIndex) rest
      else Duokan_textNotes now currentBookTitle currentAuthor noteIndex rest)"

definition Duokan_parsePlainText :: "nat \<Rightarrow> jsstring \<Rightarrow> JsBookData" where
  "Duokan_parsePlainText now content' =
     (let lines = filter (\<lambda>line. trim line \<noteq> []) (split 10 content');
          currentBookTitle = (case match_label lbl_title content' of
                                None \<Rightarrow> unknown_book
                              | Some g \<Rightarrow> trim g);
          currentAuthor = (case match_label lbl_author content' of
                             None \<Rightarrow> []
                           | Some g \<Rightarrow> trim g);
          ns = Duokan_textNotes now currentBookTitle currentAuthor 0 lines
      in \<lparr>js_metadata =
            \<lparr>js_title = JStr currentBookTitle,
             js_author = Some (JStr currentAuthor),
             js_totalNotes = length ns,
             js_lastSyncDate = Date_now now\<rparr>,
          js_notes = ns, js_rawData = JStr content'\<rparr>)"

text \<open>\<open>parse\<close> (the returned promise rejects where the model returns \<open>Inl\<close>) and \<open>validate\<close>.\<close>

definition Duokan_parse :: "nat \<Rightarrow> jsstring \<Rightarrow> JsError + JsBookData" where
  "Duokan_parse now content' =
     (if Duokan_isValidJSON content' then Duokan_parseJSON now content'
      else if Duokan_isValidXML content' then Inr (Duokan_parseXML now content')
      else Inr (Duokan_parsePlainText now content'))"

section \<open>Example data\<close>

text \<open>
  Concrete annotations, bundles and store states for the examples below. \<open>mk_note\<close> is
  an annotation with the given id, book title and content and no optional field;
  \<open>mk_bundle\<close> is a bundle with the given title and annotations.
\<close>

definition empty_manager :: NotesManager where
  "empty_manager = \<lparr>this_notes = [], this_books = [], emitted = []\<rparr>"

definition mk_note :: "jsstring \<Rightarrow> jsstring \<Rightarrow> jsstring \<Rightarrow> BookNote" where
  "mk_note i t c =
     \<lparr>note_id = i, bookTitle = t, bookAuthor = None, noteType = Highlight, content = c,
      position = None, location = None, note_chapter = None, createdAt = 0, updatedAt = None,
      tags = None, color = None, source = Manual\<rparr>"

definition mk_bundle :: "jsstring \<Rightarrow> BookNote list \<Rightarrow> ParsedBookData" where
  "mk_bundle t ns =
     \<lparr>metadata = \<lparr>title = t, author = None, isbn = None, coverImage = None,
                  totalNotes = length ns, lastSyncDate = None\<rparr>,
      book_notes = ns\<rparr>"

definition no_updates :: NoteUpdates where
  "no_updates =
     \<lparr>u_note_id = None, u_bookTitle = None, u_bookAuthor = None, u_noteType = None,
      u_content = None, u_position = None, u_location = None, u_chapter = None,
      u_createdAt = None, u_updatedAt = None, u_tags = None, u_color = None, u_source = None\<rparr>"

text \<open>The store of the search test: one book with two annotations.\<close>

definition js_note :: BookNote where
  "js_note = mk_note (ascii ''test-1'') (ascii ''Book'') (ascii ''JavaScript tips'')"

definition py_note :: BookNote where
  "py_note = mk_note (ascii ''test-2'') (ascii ''Book'') (ascii ''Python data'')"

definition search_store :: NotesManager where
  "search_store =
     \<lparr>this_notes = [(ascii ''test-1'', js_note), (ascii ''test-2'', py_note)],
      this_books = [(ascii ''Book'', mk_bundle (ascii ''Book'') [js_note, py_note])],
      emitted = []\<rparr>"

text \<open>
  The update that changes an id to \<open>zz\<close>, the second annotation of the search test after
  this update at the clock reading 7, and the store of the search test after
  \<open>updateNote('test-2', {id: 'zz'})\<close>.
\<close>

definition rename_to_zz :: NoteUpdates where
  "rename_to_zz = no_updates\<lparr>u_note_id := Some (ascii ''zz'')\<rparr>"

definition renamed_note :: BookNote where
  "renamed_note = py_note\<lparr>note_id := ascii ''zz'', updatedAt := Some 7\<rparr>"

definition renamed_store :: NotesManager where
  "renamed_store =
     \<lparr>this_notes = [(ascii ''test-1'', js_note), (ascii ''test-2'', renamed_note)],
      this_books = [(ascii ''Book'', mk_bundle (ascii ''Book'') [js_note, renamed_note])],
      emitted = [notes_updated (ascii ''test-2'')]\<rparr>"

text \<open>A store that holds one empty book called \<open>X_1\<close>.\<close>

definition X1_only :: NotesManager where
  "X1_only =
     \<lparr>this_notes = [], this_books = [(ascii ''X_1'', mk_bundle (ascii ''X_1'') [])],
      emitted = []\<rparr>"

text \<open>A bundle whose two annotations share the id \<open>d\<close>, as in the duplicate-id test.\<close>

definition dup_bundle :: ParsedBookData where
  "dup_bundle = mk_bundle (ascii ''B'')
     [mk_note (ascii ''d'') (ascii ''B'') (ascii ''one''),
      mk_note (ascii ''d'') (ascii ''B'') (ascii ''two'')]"

text \<open>Two annotations whose chapters are \<open>b\<close> and \<open>a\<close>, and the option \<open>sortBy: 'chapter'\<close>.\<close>

definition note_in_chapter :: "jsstring \<Rightarrow> jsstring \<Rightarrow> BookNote" where
  "note_in_chapter i c = (mk_note i (ascii ''Book'') (ascii ''text''))\<lparr>note_chapter := Some c\<rparr>"

definition sort_by_chapter :: FormatOptions where
  "sort_by_chapter =
     \<lparr>includeMetadata = None, includeLocation = None, includeTags = None,
      groupByChapter = None, sortBy = Some by_chapter\<rparr>"

text \<open>
  Three inputs of \<open>DuokanParser\<close>: a JSON document cut off inside its \<open>notes\<close> array, which
  contains the marker \<open>duokan\<close>; the JSON document \<open>null\<close>; a JSON document with one
  annotation that has neither \<open>content\<close> nor \<open>text\<close>.
\<close>

definition broken_json :: jsstring where
  \<open>broken_json = ascii ''{"bookTitle": "duokan", "notes": [''\<close>

definition null_json :: jsstring where
  "null_json = ascii ''null''"

definition empty_note_json :: jsstring where
  \<open>empty_note_json = ascii ''{"notes":[{}]}''\<close>

text \<open>
  The input of the repository's test of malformed input: a JSON document cut off inside
  its \<open>notes\<close> array, with a two-character title and with the author label as the value
  of \<open>author\<close>.
\<close>

definition test_broken_json :: jsstring where
  \<open>test_broken_json =
     ascii ''{"bookTitle": "'' @ [27979, 35797] @ ascii ''", "author": "'' @ lbl_author @
     ascii ''", "notes": [''\<close>

text \<open>
  \<open>stored_under t d b\<close>: the stored bundle \<open>b\<close> is the incoming bundle \<open>d\<close> filed under
  the title \<open>t\<close>: it carries \<open>t\<close> as its title, has as many annotations as \<open>d\<close>, and
  each of them names \<open>t\<close> as its book.
\<close>

definition stored_under :: "jsstring \<Rightarrow> ParsedBookData \<Rightarrow> ParsedBookData \<Rightarrow> bool" where
  "stored_under t d b \<longleftrightarrow>
     title (metadata b) = t \<and> length (book_notes b) = length (book_notes d) \<and>
     (\<forall>n \<in> set (book_notes b). bookTitle n = t)"

section \<open>Maps, lookups and the collision loop\<close>

lemma Map_set_fresh: "k \<notin> fst ` set m \<Longrightarrow> Map_set k v m = m @ [(k, v)]"
  by (induction m) auto

lemma Map_set_last: "k \<notin> fst ` set m \<Longrightarrow> Map_set k v (m @ [(k, w)]) = m @ [(k, v)]"
  by (induction m) auto

lemma map_of_last: "k \<notin> fst ` set m \<Longrightarrow> map_of (m @ [(k, v)]) k = Some v"
  by (induction m) auto

lemma map_of_Map_delete: "map_of (Map_delete k m) = (map_of m)(k := None)"
  by (induction m) (auto simp: Map_delete_def fun_eq_iff)

lemma str_includes_sublist: "str_includes s q \<longleftrightarrow> sublist q s"
  by (induction s) (auto simp: sublist_Cons_right)

lemma str_includes_empty: "str_includes s []"
  by (simp add: str_includes_sublist)

lemma uniqueName_fresh: "uniqueName keys base name counter \<notin> set keys"
  by (induction keys base name counter rule: uniqueName.induct)
     (simp add: uniqueName.simps)

lemma uniqueName_free: "name \<notin> set keys \<Longrightarrow> uniqueName keys base name counter = name"
  by (simp add: uniqueName.simps)

lemma uniqueName_taken:
  "name \<in> set keys \<Longrightarrow>
   uniqueName keys base name counter =
   uniqueName keys base (base @ 95 # decimal counter) (Suc counter)"
  by (subst uniqueName.simps) simp

section \<open>Unknown ids: updateNote and deleteNote\<close>

text \<open>
  C9. For a \<open>noteId\<close> that the flat index does not hold, \<open>updateNote\<close> and \<open>deleteNote\<close>
  both return \<open>false\<close> and leave the whole state as it was: both indexes, every bundle
  and every annotation in them, and no event is emitted.
\<close>

theorem unknown_id_update_delete_noop:
  assumes "getNoteById m noteId = None"
  shows "updateNote now noteId updates m = (False, m) \<and> deleteNote noteId m = (False, m)"
  using assms by (simp add: getNoteById_def updateNote_def deleteNote_def)

theorem unknown_id_update_delete_noop_witness:
  "getNoteById search_store (ascii ''test-3'') = None \<and>
   updateNote 7 (ascii ''test-3'') no_updates search_store = (False, search_store) \<and>
   deleteNote (ascii ''test-3'') search_store = (False, search_store)"
proof -
  have h: "getNoteById search_store (ascii ''test-3'') = None"
    by (simp add: getNoteById_def search_store_def ascii_def)
  from unknown_id_update_delete_noop[OF h, of 7 no_updates] h show ?thesis by simp
qed

section \<open>Deleting a book\<close>

lemma map_of_fold_delete:
  "map_of (fold (\<lambda>n idx. Map_delete (note_id n) idx) ns idx) k =
     (if k \<in> note_id ` set ns then None else map_of idx k)"
  by (induction ns arbitrary: idx) (auto simp: map_of_Map_delete)

lemma fold_delete_filter:
  "fold (\<lambda>n idx. Map_delete (note_id n) idx) ns idx =
     filter (\<lambda>e. fst e \<notin> note_id ` set ns) idx"
proof (induction ns arbitrary: idx)
  case Nil
  then show ?case by simp
next
  case (Cons n ns)
  have "filter (\<lambda>e. fst e \<notin> note_id ` set ns) (Map_delete (note_id n) idx) =
        filter (\<lambda>e. fst e \<notin> note_id ` set (n # ns)) idx"
    by (induction idx) (auto simp: Map_delete_def)
  with Cons show ?case by simp
qed

text \<open>
  What \<open>deleteBook\<close> does in every state: it deletes the keys that are ids of the
  bundle's annotations. Afterwards \<open>getNoteById\<close> finds nothing under these ids, and
  every other key is looked up as before.
\<close>

lemma deleteBook_deletes_ids:
  "(getBook m t = Some b \<longrightarrow>
      (\<exists>m'. deleteBook t m = (True, m') \<and>
            (\<forall>n \<in> set (book_notes b). getNoteById m' (note_id n) = None) \<and>
            (\<forall>k. k \<notin> note_id ` set (book_notes b) \<longrightarrow> getNoteById m' k = getNoteById m k) \<and>
            getBook m' t = None)) \<and>
   (getBook m t = None \<longrightarrow> deleteBook t m = (False, m))"
  by (auto simp: getBook_def getNoteById_def deleteBook_def map_of_fold_delete map_of_Map_delete)

text \<open>
  C5, as amended. Let the book index hold a bundle \<open>b\<close> under the title \<open>t\<close>, and let every
  entry of the flat index that holds an annotation of \<open>b\<close> have the id of that annotation
  as its key. Then \<open>deleteBook t\<close> returns \<open>true\<close>, and afterwards every annotation of
  \<open>b\<close> is gone from the flat index: no entry holds it, and \<open>getNoteById\<close> finds nothing
  under its id. The entries whose key is not the id of an annotation of \<open>b\<close> stay as they
  are, in their order, and \<open>t\<close> is no longer a book. When the book index holds nothing
  under \<open>t\<close>, \<open>deleteBook t\<close> returns \<open>false\<close> and the state is unchanged.
\<close>

theorem deleteBook_removes_bundle_annotations:
  "(getBook m t = Some b \<and>
    (\<forall>e \<in> set (this_notes m). snd e \<in> set (book_notes b) \<longrightarrow> fst e = note_id (snd e)) \<longrightarrow>
      (\<exists>m'. deleteBook t m = (True, m') \<and>
            (\<forall>n \<in> set (book_notes b).
               n \<notin> snd ` set (this_notes m') \<and> getNoteById m' (note_id n) = None) \<and>
            this_notes m' = filter (\<lambda>e. fst e \<notin> note_id ` set (book_notes b)) (this_notes m) \<and>
            getBook m' t = None)) \<and>
   (getBook m t = None \<longrightarrow> deleteBook t m = (False, m))"
proof (intro conjI impI)
  assume a: "getBook m t = Some b \<and>
    (\<forall>e \<in> set (this_notes m). snd e \<in> set (book_notes b) \<longrightarrow> fst e = note_id (snd e))"
  define m' where
    "m' = m\<lparr>this_notes := fold (\<lambda>n idx. Map_delete (note_id n) idx) (book_notes b) (this_notes m),
             this_books := Map_delete t (this_books m)\<rparr>"
  have d: "deleteBook t m = (True, m')"
    using a by (simp add: deleteBook_def getBook_def m'_def)
  have f: "this_notes m' = filter (\<lambda>e. fst e \<notin> note_id ` set (book_notes b)) (this_notes m)"
    by (simp add: m'_def fold_delete_filter)
  have gone: "n \<notin> snd ` set (this_notes m')" if n: "n \<in> set (book_notes b)" for n
  proof
    assume "n \<in> snd ` set (this_notes m')"
    then obtain k where k: "(k, n) \<in> set (this_notes m)" "k \<notin> note_id ` set (book_notes b)"
      unfolding f by auto
    from a k(1) n have "k = note_id n" by fastforce
    with k(2) n show False by blast
  qed
  have none: "getNoteById m' (note_id n) = None" if "n \<in> set (book_notes b)" for n
    using that by (simp add: getNoteById_def m'_def map_of_fold_delete)
  have "getBook m' t = None"
    by (simp add: getBook_def m'_def map_of_Map_delete)
  with d f gone none
  show "\<exists>m'. deleteBook t m = (True, m') \<and>
            (\<forall>n \<in> set (book_notes b).
               n \<notin> snd ` set (this_notes m') \<and> getNoteById m' (note_id n) = None) \<and>
            this_notes m' = filter (\<lambda>e. fst e \<notin> note_id ` set (book_notes b)) (this_notes m) \<and>
            getBook m' t = None"
    by blast
next
  assume "getBook m t = None"
  then show "deleteBook t m = (False, m)"
    by (simp add: deleteBook_def getBook_def)
qed

theorem deleteBook_removes_bundle_annotations_witness:
  "getBook search_store (ascii ''Book'') = Some (mk_bundle (ascii ''Book'') [js_note, py_note]) \<and>
   fst (deleteBook (ascii ''Book'') search_store) = True \<and>
   js_note \<notin> snd ` set (this_notes (snd (deleteBook (ascii ''Book'') search_store))) \<and>
   py_note \<notin> snd ` set (this_notes (snd (deleteBook (ascii ''Book'') search_store))) \<and>
   getNoteById (snd (deleteBook (ascii ''Book'') search_store)) (ascii ''test-1'') = None \<and>
   getNoteById (snd (deleteBook (ascii ''Book'') search_store)) (ascii ''test-2'') = None \<and>
   getBook search_store (ascii ''Other'') = None \<and>
   deleteBook (ascii ''Other'') search_store = (False, search_store)"
proof -
  let ?b = "mk_bundle (ascii ''Book'') [js_note, py_note]"
  have present: "getBook search_store (ascii ''Book'') = Some ?b"
    by (simp add: getBook_def search_store_def)
  have absent: "getBook search_store (ascii ''Other'') = None"
    by (simp add: getBook_def search_store_def ascii_def)
  have ids: "note_id js_note = ascii ''test-1''" "note_id py_note = ascii ''test-2''"
    by (simp_all add: js_note_def py_note_def mk_note_def)
  have keyed: "\<forall>e \<in> set (this_notes search_store).
                  snd e \<in> set (book_notes ?b) \<longrightarrow> fst e = note_id (snd e)"
    by (simp add: search_store_def ids)
  from deleteBook_removes_bundle_annotations[of search_store "ascii ''Book''" ?b] present keyed
  obtain m' where m': "deleteBook (ascii ''Book'') search_store = (True, m')"
      "\<forall>n \<in> set (book_notes ?b).
          n \<notin> snd ` set (this_notes m') \<and> getNoteById m' (note_id n) = None"
    by blast
  from m'(2) ids have "js_note \<notin> snd ` set (this_notes m')" "py_note \<notin> snd ` set (this_notes m')"
      "getNoteById m' (ascii ''test-1'') = None" "getNoteById m' (ascii ''test-2'') = None"
    by (simp_all add: mk_bundle_def)
  moreover from deleteBook_removes_bundle_annotations[of search_store "ascii ''Other''"] absent
  have "deleteBook (ascii ''Other'') search_store = (False, search_store)" by blast
  ultimately show ?thesis using present absent m'(1) by simp
qed

text \<open>
  Without the hypothesis on the keys the annotations of the bundle can stay in the flat
  index. \<open>updateNote\<close> merges every field of its \<open>updates\<close>, the id included, and keeps
  the entry under its old key. After \<open>updateNote('test-2', {id: 'zz'})\<close> on the store of
  the search test, the bundle \<open>Book\<close> holds the annotation with the id \<open>zz\<close>, and the flat
  index holds it under the key \<open>test-2\<close>. \<open>deleteBook('Book')\<close> returns \<open>true\<close> and
  deletes the keys \<open>test-1\<close> and \<open>zz\<close>: the annotation of the deleted bundle is still in
  the flat index, under \<open>test-2\<close>.
\<close>

theorem deleteBook_leaves_renamed_annotation:
  "updateNote 7 (ascii ''test-2'') rename_to_zz search_store = (True, renamed_store) \<and>
   getBook renamed_store (ascii ''Book'') =
     Some (mk_bundle (ascii ''Book'') [js_note, renamed_note]) \<and>
   deleteBook (ascii ''Book'') renamed_store =
     (True, \<lparr>this_notes = [(ascii ''test-2'', renamed_note)], this_books = [],
             emitted = [notes_updated (ascii ''test-2'')]\<rparr>) \<and>
   renamed_note \<in> snd ` set (this_notes (snd (deleteBook (ascii ''Book'') renamed_store))) \<and>
   getNoteById (snd (deleteBook (ascii ''Book'') renamed_store)) (ascii ''test-2'') =
     Some renamed_note"
  by (simp add: updateNote_def deleteBook_def getBook_def getNoteById_def search_store_def
      renamed_store_def renamed_note_def rename_to_zz_def no_updates_def spread_def js_note_def
      py_note_def mk_note_def mk_bundle_def Map_delete_def ascii_def Let_def)

section \<open>Search\<close>

text \<open>
  C10. With the empty query every annotation of the flat index is returned, in the order
  of the index: the empty string occurs in every content. (\<open>toLowerCase\<close> maps the empty
  string to itself.)
\<close>

theorem search_empty_query_returns_all:
  assumes "toLowerCase [] = []"
  shows "searchNotes toLowerCase [] m = map snd (this_notes m)"
  using assms by (simp add: searchNotes_def noteMatches_def str_includes_empty)

theorem search_empty_query_returns_all_witness:
  "ascii_toLowerCase [] = [] \<and>
   searchNotes ascii_toLowerCase [] search_store = [js_note, py_note]"
proof -
  have h: "ascii_toLowerCase [] = []" by (simp add: ascii_toLowerCase_def)
  from search_empty_query_returns_all[of ascii_toLowerCase search_store, OF h] h show ?thesis
    by (simp add: search_store_def)
qed

text \<open>
  C8. An annotation is among the results of \<open>searchNotes query\<close> exactly when the flat
  index holds it and the lowercased query occurs in its lowercased content, in its
  lowercased book title, in its lowercased chapter (if it has one) or in one of its
  lowercased tags (if it has tags).
\<close>

theorem search_matches_iff:
  assumes "toLowerCase [] = []"
  shows "n \<in> set (searchNotes toLowerCase query m) \<longleftrightarrow>
         n \<in> snd ` set (this_notes m) \<and>
         (sublist (toLowerCase query) (toLowerCase (content n)) \<or>
          sublist (toLowerCase query) (toLowerCase (bookTitle n)) \<or>
          (\<exists>c. note_chapter n = Some c \<and> sublist (toLowerCase query) (toLowerCase c)) \<or>
          (\<exists>ts tag. tags n = Some ts \<and> tag \<in> set ts \<and>
                     sublist (toLowerCase query) (toLowerCase tag)))"
proof -
  have chap: "(case note_chapter n of None \<Rightarrow> False
               | Some c \<Rightarrow> c \<noteq> [] \<and> str_includes (toLowerCase c) (toLowerCase query)) \<or>
              str_includes (toLowerCase (content n)) (toLowerCase query) \<longleftrightarrow>
              (\<exists>c. note_chapter n = Some c \<and> sublist (toLowerCase query) (toLowerCase c)) \<or>
              str_includes (toLowerCase (content n)) (toLowerCase query)"
  proof (cases "note_chapter n")
    case None
    then show ?thesis by simp
  next
    case (Some c)
    show ?thesis
    proof (cases "c = []")
      case True
      with Some assms show ?thesis
        by (auto simp: str_includes_sublist)
    next
      case False
      with Some show ?thesis by (simp add: str_includes_sublist)
    qed
  qed
  have tg: "(case tags n of None \<Rightarrow> False
             | Some ts \<Rightarrow> list_ex (\<lambda>tag. str_includes (toLowerCase tag) (toLowerCase query)) ts) \<longleftrightarrow>
            (\<exists>ts tag. tags n = Some ts \<and> tag \<in> set ts \<and>
                     sublist (toLowerCase query) (toLowerCase tag))"
    by (cases "tags n") (auto simp: list_ex_iff str_includes_sublist)
  have "noteMatches toLowerCase (toLowerCase query) n \<longleftrightarrow>
          (sublist (toLowerCase query) (toLowerCase (content n)) \<or>
           sublist (toLowerCase query) (toLowerCase (bookTitle n)) \<or>
           (\<exists>c. note_chapter n = Some c \<and> sublist (toLowerCase query) (toLowerCase c)) \<or>
           (\<exists>ts tag. tags n = Some ts \<and> tag \<in> set ts \<and>
                      sublist (toLowerCase query) (toLowerCase tag)))"
    unfolding noteMatches_def tg using chap
    unfolding str_includes_sublist by blast
  then show ?thesis
    by (simp add: searchNotes_def)
qed

text \<open>
  The example of the claim: the annotation with content \<open>JavaScript tips\<close> (in a book
  called \<open>Book\<close>, without chapter or tags) is found by \<open>javascript\<close> and not by \<open>Python\<close>.
\<close>

theorem search_matches_iff_witness:
  "ascii_toLowerCase [] = [] \<and>
   js_note \<in> set (searchNotes ascii_toLowerCase (ascii ''javascript'') search_store) \<and>
   js_note \<notin> set (searchNotes ascii_toLowerCase (ascii ''Python'') search_store)"
proof -
  have h: "ascii_toLowerCase [] = []" by (simp add: ascii_toLowerCase_def)
  have "js_note \<in> set (searchNotes ascii_toLowerCase (ascii ''javascript'') search_store)"
    unfolding search_matches_iff[of ascii_toLowerCase, OF h] str_includes_sublist[symmetric]
    by (simp add: search_store_def js_note_def mk_note_def ascii_def ascii_toLowerCase_def)
  moreover
  have "js_note \<notin> set (searchNotes ascii_toLowerCase (ascii ''Python'') search_store)"
    unfolding search_matches_iff[of ascii_toLowerCase, OF h] str_includes_sublist[symmetric]
    by (simp add: search_store_def js_note_def mk_note_def ascii_def ascii_toLowerCase_def)
  ultimately show ?thesis using h by simp
qed

section \<open>Ingestion: titles\<close>

text \<open>
  The book index during and after the \<open>forEach\<close> loop: the bundle stored under the new
  title stays the last entry, keeps its title and its number of annotations, and all its
  annotations name the new title.
\<close>

lemma storeNote_books:
  assumes "t \<notin> fst ` set old" "this_books m = old @ [(t, b)]" "stored_under t d b"
    and "k < length (book_notes d)"
  shows "\<exists>b'. this_books (storeNote t k m) = old @ [(t, b')] \<and> stored_under t d b'"
proof -
  let ?n = "book_notes b ! k"
  have look: "map_of (this_books m) t = Some b"
    using assms(1,2) map_of_last[of t old b] by simp
  have "?n \<in> set (book_notes b)" using assms(3,4) by (simp add: stored_under_def)
  then have tn: "bookTitle ?n = t" using assms(3) by (simp add: stored_under_def)
  show ?thesis
  proof (cases "findIndex (\<lambda>x. note_id x = note_id ?n) (book_notes b)")
    case None
    then have "this_books (storeNote t k m) = old @ [(t, b)]"
      using look assms(2) by (simp add: storeNote_def Let_def)
    then show ?thesis using assms(3) by blast
  next
    case (Some i)
    let ?u = "?n\<lparr>note_id := uniqueName (map fst (this_notes m)) (note_id ?n) (note_id ?n) 1\<rparr>"
    let ?b' = "b\<lparr>book_notes := (book_notes b)[i := ?u]\<rparr>"
    have "this_books (storeNote t k m) = Map_set t ?b' (old @ [(t, b)])"
      using look Some assms(2) by (simp add: storeNote_def Let_def)
    then have "this_books (storeNote t k m) = old @ [(t, ?b')]"
      using assms(1) by (simp add: Map_set_last)
    moreover have "stored_under t d ?b'"
      using assms(3) tn
      by (auto simp: stored_under_def dest!: set_update_subset_insert[THEN subsetD])
    ultimately show ?thesis by blast
  qed
qed

lemma fold_storeNote_books:
  assumes "t \<notin> fst ` set old" "this_books m = old @ [(t, b)]" "stored_under t d b"
    and "j \<le> length (book_notes d)"
  shows "\<exists>b'. this_books (fold (storeNote t) [0..<j] m) = old @ [(t, b')] \<and>
              stored_under t d b'"
  using assms(4)
proof (induction j)
  case 0
  then show ?case using assms by auto
next
  case (Suc j)
  then obtain b' where b': "this_books (fold (storeNote t) [0..<j] m) = old @ [(t, b')]"
      "stored_under t d b'" by auto
  from storeNote_books[OF assms(1) b'] Suc.prems
  show ?case by simp
qed

lemma storeParsedData_appends:
  assumes "t = uniqueName (map fst (this_books m)) (title (metadata d)) (title (metadata d)) 1"
  shows "\<exists>b. this_books (storeParsedData d m) = this_books m @ [(t, b)] \<and> stored_under t d b"
proof -
  have fresh: "t \<notin> fst ` set (this_books m)"
    using uniqueName_fresh[of "map fst (this_books m)"] assms by simp
  let ?u = "d\<lparr>metadata := (metadata d)\<lparr>title := t\<rparr>,
                 book_notes := map (\<lambda>n. n\<lparr>bookTitle := t\<rparr>) (book_notes d)\<rparr>"
  have ok: "stored_under t d ?u"
    by (simp add: stored_under_def)
  have "this_books (m\<lparr>this_books := Map_set t ?u (this_books m)\<rparr>) = this_books m @ [(t, ?u)]"
    using fresh by (simp add: Map_set_fresh)
  from fold_storeNote_books[OF fresh this ok order_refl]
  show ?thesis
    using assms by (simp add: storeParsedData_def Let_def)
qed

text \<open>
  C4, as amended. When the store holds no book called \<open>X\<close>, \<open>X_1\<close> or \<open>X_2\<close>, ingesting
  three bundles whose parsed title is \<open>X\<close> appends three entries to the book index, under
  the titles \<open>X\<close>, \<open>X_1\<close> and \<open>X_2\<close> in this order; the books stored before are untouched,
  and each new entry is its incoming bundle filed under the resolved title: it carries
  that title, has as many annotations as the incoming bundle, and every one of them has
  the resolved title as its \<open>bookTitle\<close>.
\<close>

theorem three_same_titled_bundles:
  assumes "title (metadata d1) = X" "title (metadata d2) = X" "title (metadata d3) = X"
    and "\<not> Map_has (this_books m) X"
    and "\<not> Map_has (this_books m) (X @ ascii ''_1'')"
    and "\<not> Map_has (this_books m) (X @ ascii ''_2'')"
  shows "\<exists>b1 b2 b3.
           this_books (storeParsedData d3 (storeParsedData d2 (storeParsedData d1 m))) =
             this_books m @ [(X, b1), (X @ ascii ''_1'', b2), (X @ ascii ''_2'', b3)] \<and>
           stored_under X d1 b1 \<and> stored_under (X @ ascii ''_1'') d2 b2 \<and>
           stored_under (X @ ascii ''_2'') d3 b3"
proof -
  let ?K = "map fst (this_books m)"
  let ?X1 = "X @ ascii ''_1''" and ?X2 = "X @ ascii ''_2''"
  have X1: "?X1 = X @ 95 # decimal 1" and X2: "?X2 = X @ 95 # decimal 2"
    by (simp_all add: ascii_def decimal_digit)
  have free: "X \<notin> set ?K" "?X1 \<notin> set ?K" "?X2 \<notin> set ?K"
    using assms(4-6) by (simp_all add: Map_has_def)
  have t1: "uniqueName ?K X X 1 = X"
    using free by (simp add: uniqueName.simps)
  obtain b1 where s1: "this_books (storeParsedData d1 m) = this_books m @ [(X, b1)]"
      "stored_under X d1 b1"
    using storeParsedData_appends[of X m d1] t1 assms(1) by auto
  have t2: "uniqueName (?K @ [X]) X X 1 = ?X1"
    using free(2) by (simp add: uniqueName_taken uniqueName_free X1 del: One_nat_def)
  obtain b2 where s2: "this_books (storeParsedData d2 (storeParsedData d1 m)) =
      this_books m @ [(X, b1), (?X1, b2)]" "stored_under ?X1 d2 b2"
    using storeParsedData_appends[of ?X1 "storeParsedData d1 m" d2] t2 assms(2) s1 by auto
  have t3: "uniqueName (?K @ [X, ?X1]) X X 1 = ?X2"
  proof -
    have "uniqueName (?K @ [X, ?X1]) X X 1 = uniqueName (?K @ [X, ?X1]) X ?X1 2"
      by (subst uniqueName_taken) (simp_all add: X1 del: One_nat_def)
    also have "\<dots> = uniqueName (?K @ [X, ?X1]) X ?X2 3"
      by (subst uniqueName_taken) (simp_all add: X2 numeral_3_eq_3 numeral_2_eq_2)
    also have "\<dots> = ?X2"
      using free(3) by (subst uniqueName_free) (simp_all add: ascii_def)
    finally show ?thesis .
  qed
  obtain b3 where s3:
      "this_books (storeParsedData d3 (storeParsedData d2 (storeParsedData d1 m))) =
         this_books m @ [(X, b1), (?X1, b2), (?X2, b3)]" "stored_under ?X2 d3 b3"
    using storeParsedData_appends[of ?X2 "storeParsedData d2 (storeParsedData d1 m)" d3]
      t3 assms(3) s2 by auto
  from s1 s2 s3 show ?thesis by blast
qed

theorem three_same_titled_bundles_witness:
  "title (metadata (mk_bundle (ascii ''X'') [mk_note (ascii ''a'') (ascii ''X'') (ascii ''c1'')]))
     = ascii ''X'' \<and>
   \<not> Map_has (this_books empty_manager) (ascii ''X'') \<and>
   \<not> Map_has (this_books empty_manager) (ascii ''X'' @ ascii ''_1'') \<and>
   \<not> Map_has (this_books empty_manager) (ascii ''X'' @ ascii ''_2'') \<and>
   (\<exists>b1 b2 b3.
      this_books
        (storeParsedData (mk_bundle (ascii ''X'') [mk_note (ascii ''a'') (ascii ''X'') (ascii ''c1'')])
          (storeParsedData (mk_bundle (ascii ''X'') [mk_note (ascii ''a'') (ascii ''X'') (ascii ''c1'')])
            (storeParsedData (mk_bundle (ascii ''X'') [mk_note (ascii ''a'') (ascii ''X'') (ascii ''c1'')])
               empty_manager))) =
        this_books empty_manager @
          [(ascii ''X'', b1), (ascii ''X'' @ ascii ''_1'', b2), (ascii ''X'' @ ascii ''_2'', b3)] \<and>
      stored_under (ascii ''X'')
        (mk_bundle (ascii ''X'') [mk_note (ascii ''a'') (ascii ''X'') (ascii ''c1'')]) b1 \<and>
      stored_under (ascii ''X'' @ ascii ''_1'')
        (mk_bundle (ascii ''X'') [mk_note (ascii ''a'') (ascii ''X'') (ascii ''c1'')]) b2 \<and>
      stored_under (ascii ''X'' @ ascii ''_2'')
        (mk_bundle (ascii ''X'') [mk_note (ascii ''a'') (ascii ''X'') (ascii ''c1'')]) b3)"
proof -
  let ?d = "mk_bundle (ascii ''X'') [mk_note (ascii ''a'') (ascii ''X'') (ascii ''c1'')]"
  have h: "title (metadata ?d) = ascii ''X''" by (simp add: mk_bundle_def)
  have f: "\<not> Map_has (this_books empty_manager) (ascii ''X'')"
    "\<not> Map_has (this_books empty_manager) (ascii ''X'' @ ascii ''_1'')"
    "\<not> Map_has (this_books empty_manager) (ascii ''X'' @ ascii ''_2'')"
    by (simp_all add: Map_has_def empty_manager_def)
  from three_same_titled_bundles[OF h h h f] h f show ?thesis by blast
qed

text \<open>
  The claim as written asks only that the store has no book called \<open>X\<close>. A store that
  already holds a book called \<open>X_1\<close> files the three bundles under \<open>X\<close>, \<open>X_2\<close> and
  \<open>X_3\<close>: the loop skips every name that is taken.
\<close>

theorem three_same_titled_bundles_counterexample:
  "\<not> Map_has (this_books X1_only) (ascii ''X'') \<and>
   map fst (this_books
      (storeParsedData (mk_bundle (ascii ''X'') [])
        (storeParsedData (mk_bundle (ascii ''X'') [])
          (storeParsedData (mk_bundle (ascii ''X'') []) X1_only)))) =
     [ascii ''X_1'', ascii ''X'', ascii ''X_2'', ascii ''X_3'']"
  by (simp add: X1_only_def mk_bundle_def storeParsedData_def ascii_def Map_has_def
      uniqueName.simps decimal_digit Let_def)

section \<open>Ingestion: annotation ids\<close>

text \<open>
  When the ids of the incoming annotations are pairwise different and none of them is a
  key of the flat index, no id is changed: the bundle is stored with its annotations
  stamped with the resolved title, each of them is appended to the flat index under its
  id, and the two indexes agree.
\<close>

lemma findIndex_distinct:
  "distinct (map f xs) \<Longrightarrow> k < length xs \<Longrightarrow> findIndex (\<lambda>x. f x = f (xs ! k)) xs = Some k"
proof (induction xs arbitrary: k)
  case Nil
  then show ?case by simp
next
  case (Cons x xs)
  show ?case
  proof (cases k)
    case 0
    then show ?thesis by simp
  next
    case (Suc j)
    with Cons.prems have "j < length xs" "f (xs ! j) \<in> f ` set xs" by auto
    with Cons Suc show ?thesis by auto
  qed
qed

lemma nth_notin_take: "distinct ys \<Longrightarrow> j < length ys \<Longrightarrow> ys ! j \<notin> set (take j ys)"
proof
  assume d: "distinct ys" and j: "j < length ys" and "ys ! j \<in> set (take j ys)"
  then obtain i where "i < j" "take j ys ! i = ys ! j"
    by (auto simp: in_set_conv_nth)
  with j have "i < length ys" "i \<noteq> j" "ys ! i = ys ! j" by auto
  with d j show False by (simp add: distinct_conv_nth)
qed

lemma storeNote_fresh_id:
  assumes fresh: "t \<notin> fst ` set oldb"
    and books: "this_books m = oldb @ [(t, b)]"
    and dist: "distinct (map note_id (book_notes b))"
    and k: "k < length (book_notes b)"
    and nf: "note_id (book_notes b ! k) \<notin> fst ` set (this_notes m)"
  shows "storeNote t k m =
           m\<lparr>this_notes := this_notes m @ [(note_id (book_notes b ! k), book_notes b ! k)]\<rparr>"
proof -
  let ?n = "book_notes b ! k"
  have look: "map_of (this_books m) t = Some b"
    using fresh books map_of_last[of t oldb b] by simp
  have u: "uniqueName (map fst (this_notes m)) (note_id ?n) (note_id ?n) 1 = note_id ?n"
    using nf by (intro uniqueName_free) simp
  have fi: "findIndex (\<lambda>x. note_id x = note_id ?n) (book_notes b) = Some k"
    using findIndex_distinct[OF dist k] .
  have ms: "Map_set (note_id ?n) ?n (this_notes m) = this_notes m @ [(note_id ?n, ?n)]"
    using nf by (rule Map_set_fresh)
  have same: "(book_notes b)[k := ?n] = book_notes b" by (rule list_update_id)
  have mb: "Map_set t b (this_books m) = this_books m"
    unfolding books using fresh by (rule Map_set_last)
  show ?thesis
    unfolding storeNote_def look option.case Let_def u fi
    by (simp add: ms same mb del: Map_set.simps)
qed

lemma fold_storeNote_distinct:
  assumes fresh: "t \<notin> fst ` set oldb"
    and books: "this_books m = oldb @ [(t, b)]"
    and dist: "distinct (map note_id (book_notes b))"
    and disj: "set (map note_id (book_notes b)) \<inter> set (map fst (this_notes m)) = {}"
    and j: "j \<le> length (book_notes b)"
  shows "fold (storeNote t) [0..<j] m =
           m\<lparr>this_notes := this_notes m @ map (\<lambda>n. (note_id n, n)) (take j (book_notes b))\<rparr>"
  using j
proof (induction j)
  case 0
  then show ?case by simp
next
  case (Suc j)
  define m' where
    "m' = m\<lparr>this_notes := this_notes m @ map (\<lambda>n. (note_id n, n)) (take j (book_notes b))\<rparr>"
  let ?n = "book_notes b ! j"
  from Suc have IH: "fold (storeNote t) [0..<j] m = m'" and jl: "j < length (book_notes b)"
    by (auto simp: m'_def)
  have bm: "this_books m' = oldb @ [(t, b)]" using books by (simp add: m'_def)
  have "map note_id (book_notes b) ! j \<notin> set (take j (map note_id (book_notes b)))"
    using dist jl by (intro nth_notin_take) simp_all
  then have a: "note_id ?n \<notin> note_id ` set (take j (book_notes b))"
    using jl by (simp add: take_map)
  have "map note_id (book_notes b) ! j \<in> set (map note_id (book_notes b))"
    using jl by (intro nth_mem) simp
  then have "map note_id (book_notes b) ! j \<notin> set (map fst (this_notes m))"
    using disj by blast
  then have "note_id ?n \<notin> set (map fst (this_notes m))"
    using jl by simp
  with a have nf: "note_id ?n \<notin> fst ` set (this_notes m')"
    by (auto simp: m'_def image_Un image_image)
  have "storeNote t j m' = m'\<lparr>this_notes := this_notes m' @ [(note_id ?n, ?n)]\<rparr>"
    by (rule storeNote_fresh_id[OF fresh bm dist jl nf])
  then show ?case
    using IH jl by (simp add: take_Suc_conv_app_nth m'_def)
qed

lemma storeParsedData_distinct_fresh_ids:
  assumes "distinct (map note_id (book_notes d))"
    and "set (map note_id (book_notes d)) \<inter> set (map fst (this_notes m)) = {}"
    and "t = uniqueName (map fst (this_books m)) (title (metadata d)) (title (metadata d)) 1"
    and "stamped = map (\<lambda>n. n\<lparr>bookTitle := t\<rparr>) (book_notes d)"
  shows "storeParsedData d m =
           m\<lparr>this_books :=
                this_books m @ [(t, d\<lparr>metadata := (metadata d)\<lparr>title := t\<rparr>, book_notes := stamped\<rparr>)],
             this_notes := this_notes m @ map (\<lambda>n. (note_id n, n)) stamped\<rparr>"
proof -
  let ?u = "d\<lparr>metadata := (metadata d)\<lparr>title := t\<rparr>, book_notes := stamped\<rparr>"
  let ?m1 = "m\<lparr>this_books := Map_set t ?u (this_books m)\<rparr>"
  have fresh: "t \<notin> fst ` set (this_books m)"
    using uniqueName_fresh[of "map fst (this_books m)"] assms(3) by simp
  have b: "this_books ?m1 = this_books m @ [(t, ?u)]"
    using fresh by (simp add: Map_set_fresh)
  have ids: "map note_id (book_notes ?u) = map note_id (book_notes d)"
    by (simp add: assms(4) comp_def)
  have "fold (storeNote t) [0..<length (book_notes ?u)] ?m1 =
        ?m1\<lparr>this_notes := this_notes ?m1 @
               map (\<lambda>n. (note_id n, n)) (take (length (book_notes ?u)) (book_notes ?u))\<rparr>"
    by (rule fold_storeNote_distinct[OF fresh b]) (use assms(1,2) ids in auto)
  moreover have "storeParsedData d m = fold (storeNote t) [0..<length (book_notes ?u)] ?m1"
    unfolding storeParsedData_def Let_def assms(3,4) by (rule refl)
  ultimately show ?thesis
    using b by simp
qed

lemma map_of_keyed:
  "distinct (map f ys) \<Longrightarrow> n \<in> set ys \<Longrightarrow> map_of (map (\<lambda>n. (f n, n)) ys) (f n) = Some n"
  by (induction ys) (auto simp: image_iff)

lemma ingestion_consistent_when_ids_distinct_and_fresh:
  assumes "distinct (map note_id (book_notes d))"
    and "set (map note_id (book_notes d)) \<inter> set (map fst (this_notes m)) = {}"
  shows "\<exists>t b. this_books (storeParsedData d m) = this_books m @ [(t, b)] \<and>
               (\<forall>n \<in> set (book_notes b).
                  getNoteById (storeParsedData d m) (note_id n) = Some n)"
proof -
  define t where
    "t = uniqueName (map fst (this_books m)) (title (metadata d)) (title (metadata d)) 1"
  define stamped where "stamped = map (\<lambda>n. n\<lparr>bookTitle := t\<rparr>) (book_notes d)"
  let ?b = "d\<lparr>metadata := (metadata d)\<lparr>title := t\<rparr>, book_notes := stamped\<rparr>"
  have ids: "map note_id stamped = map note_id (book_notes d)"
    by (simp add: stamped_def comp_def)
  have st: "storeParsedData d m =
      m\<lparr>this_books := this_books m @ [(t, ?b)],
        this_notes := this_notes m @ map (\<lambda>n. (note_id n, n)) stamped\<rparr>"
    by (rule storeParsedData_distinct_fresh_ids[OF assms t_def stamped_def])
  have "getNoteById (storeParsedData d m) (note_id n) = Some n" if n: "n \<in> set stamped" for n
  proof -
    have "note_id n \<in> set (map note_id (book_notes d))"
      using n ids by (metis image_eqI set_map)
    then have "note_id n \<notin> fst ` set (this_notes m)"
      using assms(2) by auto
    then have "map_of (this_notes m) (note_id n) = None"
      by (simp add: map_of_eq_None_iff)
    moreover have "map_of (map (\<lambda>n. (note_id n, n)) stamped) (note_id n) = Some n"
      using assms(1) ids n by (intro map_of_keyed) simp_all
    ultimately show ?thesis
      by (simp add: getNoteById_def st map_add_def)
  qed
  then show ?thesis using st by auto
qed

text \<open>
  C1 at the bundle of the duplicate-id test, ingested into the empty store. The flat
  index receives both annotations, under \<open>d\<close> and \<open>d_1\<close>. The write-back into the bundle
  looks the position up by the original id: for the second annotation it finds position
  0, so the bundle ends with the second annotation twice, once as \<open>d_1\<close> and once under
  its original id \<open>d\<close>, and without the first annotation. The bundle's entry with id \<open>d\<close>
  has content \<open>two\<close>, the flat index maps \<open>d\<close> to the annotation with content \<open>one\<close>.
\<close>

theorem duplicate_ids_bundle_diverges_from_flat_index:
  "storeParsedData dup_bundle empty_manager =
     \<lparr>this_notes = [(ascii ''d'', mk_note (ascii ''d'') (ascii ''B'') (ascii ''one'')),
                    (ascii ''d_1'', mk_note (ascii ''d_1'') (ascii ''B'') (ascii ''two''))],
      this_books = [(ascii ''B'', mk_bundle (ascii ''B'')
                       [mk_note (ascii ''d_1'') (ascii ''B'') (ascii ''two''),
                        mk_note (ascii ''d'') (ascii ''B'') (ascii ''two'')])],
      emitted = []\<rparr>"
  by (simp add: dup_bundle_def empty_manager_def mk_bundle_def mk_note_def storeParsedData_def
      storeNote_def ascii_def uniqueName.simps decimal_digit Let_def)

section \<open>Rendering order\<close>

text \<open>
  With \<open>sortBy: 'position'\<close> (the default) and \<open>sortBy: 'date'\<close> the annotations are
  ordered by \<open>position || 0\<close> and by creation time; with \<open>sortBy: 'chapter'\<close> the list is
  left as it is.
\<close>

lemma sortedNotes_by_position:
  "sortBy options = Some by_position \<or> sortBy options = None \<Longrightarrow>
   sorted (map (\<lambda>n. case position n of None \<Rightarrow> 0 | Some p \<Rightarrow> p) (sortedNotes options ns)) \<and>
   set (sortedNotes options ns) = set ns \<and> length (sortedNotes options ns) = length ns"
  by (auto simp: sortedNotes_def)

lemma sortedNotes_by_date:
  "sortBy options = Some by_date \<Longrightarrow>
   sorted (map createdAt (sortedNotes options ns)) \<and>
   set (sortedNotes options ns) = set ns \<and> length (sortedNotes options ns) = length ns"
  by (auto simp: sortedNotes_def)

lemma sortedNotes_by_chapter: "sortBy options = Some by_chapter \<Longrightarrow> sortedNotes options ns = ns"
  by (simp add: sortedNotes_def)

text \<open>
  C6 at a list of two annotations with chapters \<open>b\<close> and \<open>a\<close>, rendered with
  \<open>sortBy: 'chapter'\<close>: the blocks are written in the order of the input, chapter \<open>b\<close>
  before chapter \<open>a\<close>. The option \<open>'chapter'\<close> has no branch in the renderer, so the list
  is not sorted at all.
\<close>

theorem sortBy_chapter_keeps_input_order:
  "emittedNotes sort_by_chapter
     [note_in_chapter (ascii ''n1'') (ascii ''b''), note_in_chapter (ascii ''n2'') (ascii ''a'')] =
     [note_in_chapter (ascii ''n1'') (ascii ''b''), note_in_chapter (ascii ''n2'') (ascii ''a'')]"
  by (simp add: emittedNotes_def sortedNotes_def sort_by_chapter_def)

section \<open>JSON.parse: the bound on nested calls\<close>

text \<open>
  Every parsing function returns a rest that is shorter than its input, a result
  obtained within some bound is obtained within every larger bound, and a result is
  obtained within the number of code units that were read. So a text that any bound
  parses is parsed within the bound of \<open>JSON_parse\<close>: \<open>None\<close> is always a syntax error.
\<close>

lemma closes_length: "closes c s = Some r \<Longrightarrow> length r < length s"
proof -
  assume "closes c s = Some r"
  then obtain d where "dropWhile is_json_space s = d # r"
    by (auto simp: closes_def split: list.splits if_splits)
  then have "length (dropWhile is_json_space s) = Suc (length r)" by simp
  then show ?thesis using length_dropWhile_le[of is_json_space s] by linarith
qed

lemma json_string_length: "json_string s = Some (x, r) \<Longrightarrow> length r < length s"
proof (induction "length s" arbitrary: s x r rule: less_induct)
  case less
  have IH: "json_string s' = Some (x', r') \<Longrightarrow> length s' < length s \<Longrightarrow> length r' < length s"
    for s' x' r'
    using less.hyps[of s' x' r'] by simp
  from less.prems show ?case
    by (cases s) (auto simp: bind_eq_Some_conv split: if_splits list.splits dest!: IH)
qed


lemma json_fraction_length: "json_fraction s = Some (x, r) \<Longrightarrow> length r \<le> length s"
  using length_dropWhile_le[of is_digit "tl s"]
  by (auto simp: json_fraction_def split: list.splits if_splits)

lemma json_exponent_length: "json_exponent s = Some (x, r) \<Longrightarrow> length r \<le> length s"
proof -
  assume a: "json_exponent s = Some (x, r)"
  have d: "length (dropWhile is_digit u) \<le> length u" for u :: jsstring
    by (rule length_dropWhile_le)
  from a show ?thesis
    using d[of "tl s"] d[of "tl (tl s)"]
    by (auto simp: json_exponent_def Let_def split: list.splits if_splits prod.splits)
qed

lemma json_number_length: "json_number s = Some (v, r) \<Longrightarrow> length r < length s"
proof -
  assume a: "json_number s = Some (v, r)"
  define s1 where "s1 = (case s of [] \<Rightarrow> s | c # r \<Rightarrow> if c = 45 then r else s)"
  have s1: "length s1 \<le> length s" by (auto simp: s1_def split: list.splits)
  have sp: "(case s of [] \<Rightarrow> (False, s) | c # r \<Rightarrow> if c = 45 then (True, r) else (False, s)) =
            ((case s of [] \<Rightarrow> False | c # r \<Rightarrow> c = 45), s1)"
    by (auto simp: s1_def split: list.splits)
  from a obtain fp s3 ex where ip: "takeWhile is_digit s1 \<noteq> []"
      and f: "json_fraction (dropWhile is_digit s1) = Some (fp, s3)"
      and e: "json_exponent s3 = Some (ex, r)"
    unfolding json_number_def sp
    by (auto simp: Let_def bind_eq_Some_conv split: if_splits)
  have "length (takeWhile is_digit s1) + length (dropWhile is_digit s1) = length s1"
    by (metis length_append takeWhile_dropWhile_id)
  with ip have "length (dropWhile is_digit s1) < length s1"
    by (cases "takeWhile is_digit s1") auto
  with json_fraction_length[OF f] json_exponent_length[OF e] s1 show ?thesis by linarith
qed

lemma json_atom_length: "json_atom s = Some (v, r) \<Longrightarrow> length r < length s"
  by (auto simp: json_atom_def bind_eq_Some_conv split: list.splits if_splits
      dest: json_number_length json_string_length)


lemma json_fuel_step:
  "(\<forall>s x. json_value n s = Some x \<longrightarrow> json_value (Suc n) s = Some x) \<and>
   (\<forall>s y. json_elements n s = Some y \<longrightarrow> json_elements (Suc n) s = Some y) \<and>
   (\<forall>s z. json_members n s = Some z \<longrightarrow> json_members (Suc n) s = Some z)"
proof (induction n)
  case 0
  then show ?case
    by (simp add: json_value.simps(1) json_elements.simps(1) json_members.simps(1))
next
  case (Suc n)
  have v: "json_value n s = Some x \<Longrightarrow> json_value (Suc n) s = Some x" for s x
    using Suc by blast
  have e: "json_elements n s = Some y \<Longrightarrow> json_elements (Suc n) s = Some y" for s y
    using Suc by blast
  have m: "json_members n s = Some z \<Longrightarrow> json_members (Suc n) s = Some z" for s z
    using Suc by blast
  have 1: "json_value (Suc (Suc n)) s = Some x" if a: "json_value (Suc n) s = Some x" for s x
  proof (cases "dropWhile is_json_space s")
    case Nil
    with a show ?thesis by (simp add: json_value.simps(2))
  next
    case (Cons c cs)
    with a show ?thesis
      unfolding json_value.simps(2)[of n s] json_value.simps(2)[of "Suc n" s]
      by (auto simp: bind_eq_Some_conv split: if_splits option.splits dest!: e m)
  qed
  have 2: "json_elements (Suc (Suc n)) s = Some y" if a: "json_elements (Suc n) s = Some y" for s y
  proof -
    from a obtain x r where vr: "json_value n s = Some (x, r)"
      and rest: "(case closes 93 r of
                    Some r' \<Rightarrow> Some ([x], r')
                  | None \<Rightarrow> do { r' \<leftarrow> closes 44 r;
                                 (vs, r'') \<leftarrow> json_elements n r';
                                 Some (x # vs, r'') }) = Some y"
      unfolding json_elements.simps(2)[of n s] by (auto simp: bind_eq_Some_conv)
    have "(case closes 93 r of
             Some r' \<Rightarrow> Some ([x], r')
           | None \<Rightarrow> do { r' \<leftarrow> closes 44 r;
                          (vs, r'') \<leftarrow> json_elements (Suc n) r';
                          Some (x # vs, r'') }) = Some y"
      using rest by (auto simp: bind_eq_Some_conv split: option.splits dest!: e)
    then show ?thesis
      by (simp add: json_elements.simps(2)[of "Suc n" s] v[OF vr])
  qed
  have 3: "json_members (Suc (Suc n)) s = Some z" if a: "json_members (Suc n) s = Some z" for s z
  proof -
    from a obtain s1 k s2 s3 x r where pre: "closes 34 s = Some s1" "json_string s1 = Some (k, s2)"
        "closes 58 s2 = Some s3"
      and vr: "json_value n s3 = Some (x, r)"
      and rest: "(case closes 125 r of
                    Some r' \<Rightarrow> Some ([(k, x)], r')
                  | None \<Rightarrow> do { r' \<leftarrow> closes 44 r;
                                 (kvs, r'') \<leftarrow> json_members n r';
                                 Some ((k, x) # kvs, r'') }) = Some z"
      unfolding json_members.simps(2)[of n s] by (auto simp: bind_eq_Some_conv)
    have "(case closes 125 r of
             Some r' \<Rightarrow> Some ([(k, x)], r')
           | None \<Rightarrow> do { r' \<leftarrow> closes 44 r;
                          (kvs, r'') \<leftarrow> json_members (Suc n) r';
                          Some ((k, x) # kvs, r'') }) = Some z"
      using rest by (auto simp: bind_eq_Some_conv split: option.splits dest!: m)
    then show ?thesis
      by (simp add: json_members.simps(2)[of "Suc n" s] pre v[OF vr])
  qed
  from 1 2 3 show ?case by blast
qed


lemma json_value_mono: "json_value n s = Some x \<Longrightarrow> n \<le> m \<Longrightarrow> json_value m s = Some x"
proof (induction m)
  case 0
  then show ?case by simp
next
  case (Suc m)
  show ?case
  proof (cases "n = Suc m")
    case True
    with Suc.prems show ?thesis by simp
  next
    case False
    with Suc have "json_value m s = Some x" by simp
    with json_fuel_step[of m] show ?thesis by blast
  qed
qed

lemma json_elements_mono:
  "json_elements n s = Some x \<Longrightarrow> n \<le> m \<Longrightarrow> json_elements m s = Some x"
proof (induction m)
  case 0
  then show ?case by simp
next
  case (Suc m)
  show ?case
  proof (cases "n = Suc m")
    case True
    with Suc.prems show ?thesis by simp
  next
    case False
    with Suc have "json_elements m s = Some x" by simp
    with json_fuel_step[of m] show ?thesis by blast
  qed
qed

lemma json_members_mono:
  "json_members n s = Some x \<Longrightarrow> n \<le> m \<Longrightarrow> json_members m s = Some x"
proof (induction m)
  case 0
  then show ?case by simp
next
  case (Suc m)
  show ?case
  proof (cases "n = Suc m")
    case True
    with Suc.prems show ?thesis by simp
  next
    case False
    with Suc have "json_members m s = Some x" by simp
    with json_fuel_step[of m] show ?thesis by blast
  qed
qed


lemma json_fuel_bound:
  "(\<forall>s v r. json_value n s = Some (v, r) \<longrightarrow>
       length r < length s \<and> json_value (length s - length r) s = Some (v, r)) \<and>
   (\<forall>s vs r. json_elements n s = Some (vs, r) \<longrightarrow>
       length r < length s \<and> json_elements (length s - length r) s = Some (vs, r)) \<and>
   (\<forall>s kvs r. json_members n s = Some (kvs, r) \<longrightarrow>
       length r < length s \<and> json_members (length s - length r) s = Some (kvs, r))"
proof (induction n)
  case 0
  then show ?case
    by (simp add: json_value.simps(1) json_elements.simps(1) json_members.simps(1))
next
  case (Suc n)
  have IHv: "length r < length s \<and> json_value (length s - length r) s = Some (v, r)"
    if "json_value n s = Some (v, r)" for s v r
    using Suc that by blast
  have IHe: "length r < length s \<and> json_elements (length s - length r) s = Some (vs, r)"
    if "json_elements n s = Some (vs, r)" for s vs r
    using Suc that by blast
  have IHm: "length r < length s \<and> json_members (length s - length r) s = Some (kvs, r)"
    if "json_members n s = Some (kvs, r)" for s kvs r
    using Suc that by blast
  have 1: "length r < length s \<and> json_value (length s - length r) s = Some (v, r)"
    if a: "json_value (Suc n) s = Some (v, r)" for s v r
  proof (cases "dropWhile is_json_space s")
    case Nil
    with a show ?thesis by (simp add: json_value.simps(2))
  next
    case (Cons c cs)
    have ls: "Suc (length cs) \<le> length s"
      using length_dropWhile_le[of is_json_space s] Cons by simp
    consider (empty_array) "c = 91" "closes 93 cs = Some r" "v = JArr []"
      | (array) vs where "c = 91" "closes 93 cs = None" "json_elements n cs = Some (vs, r)"
          "v = JArr vs"
      | (empty_object) "c = 123" "closes 125 cs = Some r" "v = JObj []"
      | (object) kvs where "c = 123" "closes 125 cs = None" "json_members n cs = Some (kvs, r)"
          "v = JObj kvs"
      | (atom) "c \<noteq> 91" "c \<noteq> 123" "json_atom (c # cs) = Some (v, r)"
      using a Cons unfolding json_value.simps(2)[of n s]
      by (auto simp: bind_eq_Some_conv split: if_splits option.splits)
    then show ?thesis
    proof cases
      case empty_array
      then have lr: "length r < length cs" using closes_length by blast
      with ls obtain k where k: "length s - length r = Suc k"
        by (cases "length s - length r") auto
      show ?thesis using lr ls empty_array Cons
        by (simp add: k json_value.simps(2)[of k s])
    next
      case (array vs)
      from IHe[OF array(3)] have lr: "length r < length cs"
        and e: "json_elements (length cs - length r) cs = Some (vs, r)" by auto
      from lr ls obtain k where k: "length s - length r = Suc k"
        by (cases "length s - length r") auto
      with ls have "length cs - length r \<le> k" by linarith
      from json_elements_mono[OF e this] show ?thesis using lr ls array Cons
        by (simp add: k json_value.simps(2)[of k s])
    next
      case empty_object
      then have lr: "length r < length cs" using closes_length by blast
      with ls obtain k where k: "length s - length r = Suc k"
        by (cases "length s - length r") auto
      show ?thesis using lr ls empty_object Cons
        by (simp add: k json_value.simps(2)[of k s])
    next
      case (object kvs)
      from IHm[OF object(3)] have lr: "length r < length cs"
        and e: "json_members (length cs - length r) cs = Some (kvs, r)" by auto
      from lr ls obtain k where k: "length s - length r = Suc k"
        by (cases "length s - length r") auto
      with ls have "length cs - length r \<le> k" by linarith
      from json_members_mono[OF e this] show ?thesis using lr ls object Cons
        by (simp add: k json_value.simps(2)[of k s])
    next
      case atom
      from json_atom_length[OF atom(3)] have lr: "length r \<le> length cs" by simp
      with ls obtain k where k: "length s - length r = Suc k"
        by (cases "length s - length r") auto
      show ?thesis using lr ls atom Cons
        by (simp add: k json_value.simps(2)[of k s])
    qed
  qed
  have 2: "length r < length s \<and> json_elements (length s - length r) s = Some (vs, r)"
    if a: "json_elements (Suc n) s = Some (vs, r)" for s vs r
  proof -
    from a obtain x r1 where vr: "json_value n s = Some (x, r1)"
      and rest: "(case closes 93 r1 of
                    Some r' \<Rightarrow> Some ([x], r')
                  | None \<Rightarrow> do { r' \<leftarrow> closes 44 r1;
                                 (ws, r'') \<leftarrow> json_elements n r';
                                 Some (x # ws, r'') }) = Some (vs, r)"
      unfolding json_elements.simps(2)[of n s] by (auto simp: bind_eq_Some_conv)
    from IHv[OF vr] have l1: "length r1 < length s"
      and v1: "json_value (length s - length r1) s = Some (x, r1)" by auto
    show ?thesis
    proof (cases "closes 93 r1")
      case (Some r')
      with rest have c93: "closes 93 r1 = Some r" and r: "vs = [x]" by auto
      with closes_length have lr: "length r < length r1" by blast
      with l1 obtain k where k: "length s - length r = Suc k"
        by (cases "length s - length r") auto
      with lr l1 have "length s - length r1 \<le> k" by linarith
      from json_value_mono[OF v1 this] show ?thesis using lr l1 c93 r
        by (simp add: k json_elements.simps(2)[of k s])
    next
      case None
      with rest obtain r' ws where c: "closes 44 r1 = Some r'"
        and es: "json_elements n r' = Some (ws, r)" and vs: "vs = x # ws"
        by (auto simp: bind_eq_Some_conv)
      from IHe[OF es] have l2: "length r < length r'"
        and e2: "json_elements (length r' - length r) r' = Some (ws, r)" by auto
      from closes_length[OF c] have l3: "length r' < length r1" .
      from l1 l2 l3 obtain k where k: "length s - length r = Suc k"
        by (cases "length s - length r") auto
      with l1 l2 l3 have "length s - length r1 \<le> k" "length r' - length r \<le> k" by linarith+
      from json_value_mono[OF v1 this(1)] json_elements_mono[OF e2 this(2)]
      show ?thesis using l1 l2 l3 None c vs
        by (simp add: k json_elements.simps(2)[of k s])
    qed
  qed
  have 3: "length r < length s \<and> json_members (length s - length r) s = Some (kvs, r)"
    if a: "json_members (Suc n) s = Some (kvs, r)" for s kvs r
  proof -
    from a obtain s1 key s2 s3 x r1 where pre: "closes 34 s = Some s1"
        "json_string s1 = Some (key, s2)" "closes 58 s2 = Some s3"
      and vr: "json_value n s3 = Some (x, r1)"
      and rest: "(case closes 125 r1 of
                    Some r' \<Rightarrow> Some ([(key, x)], r')
                  | None \<Rightarrow> do { r' \<leftarrow> closes 44 r1;
                                 (ws, r'') \<leftarrow> json_members n r';
                                 Some ((key, x) # ws, r'') }) = Some (kvs, r)"
      unfolding json_members.simps(2)[of n s] by (auto simp: bind_eq_Some_conv)
    from closes_length[OF pre(1)] json_string_length[OF pre(2)] closes_length[OF pre(3)]
    have l0: "length s3 < length s" by linarith
    from IHv[OF vr] have l1: "length r1 < length s3"
      and v1: "json_value (length s3 - length r1) s3 = Some (x, r1)" by auto
    show ?thesis
    proof (cases "closes 125 r1")
      case (Some r')
      with rest have c125: "closes 125 r1 = Some r" and r: "kvs = [(key, x)]" by auto
      with closes_length have lr: "length r < length r1" by blast
      with l0 l1 obtain k where k: "length s - length r = Suc k"
        by (cases "length s - length r") auto
      with lr l0 l1 have "length s3 - length r1 \<le> k" by linarith
      from json_value_mono[OF v1 this] show ?thesis using lr l0 l1 c125 r pre
        by (simp add: k json_members.simps(2)[of k s])
    next
      case None
      with rest obtain r' ws where c: "closes 44 r1 = Some r'"
        and es: "json_members n r' = Some (ws, r)" and vs: "kvs = (key, x) # ws"
        by (auto simp: bind_eq_Some_conv)
      from IHm[OF es] have l2: "length r < length r'"
        and e2: "json_members (length r' - length r) r' = Some (ws, r)" by auto
      from closes_length[OF c] have l3: "length r' < length r1" .
      from l0 l1 l2 l3 obtain k where k: "length s - length r = Suc k"
        by (cases "length s - length r") auto
      with l0 l1 l2 l3 have "length s3 - length r1 \<le> k" "length r' - length r \<le> k"
        by linarith+
      from json_value_mono[OF v1 this(1)] json_members_mono[OF e2 this(2)]
      show ?thesis using l0 l1 l2 l3 None c vs pre
        by (simp add: k json_members.simps(2)[of k s])
    qed
  qed
  from 1 2 3 show ?case by blast
qed

theorem JSON_parse_fuel_suffices:
  assumes "json_value n s = Some (v, r)" "dropWhile is_json_space r = []"
  shows "JSON_parse s = Some v"
proof -
  from json_fuel_bound[of n] assms(1)
  have "json_value (length s - length r) s = Some (v, r)" by blast
  then have "json_value (Suc (length s)) s = Some (v, r)"
    by (rule json_value_mono) simp
  with assms(2) show ?thesis by (simp add: JSON_parse_def)
qed


text \<open>Texts that \<open>JSON_parse\<close> accepts and texts that it rejects.\<close>

lemma JSON_parse_accepts:
  \<open>JSON_parse (ascii ''null'') = Some JNull \<and>
   JSON_parse (ascii '' {"a" : [1, -2.50e+3, true, false, null, "xA"], "b":{"c":[ ]}} '') =
     Some (JObj [(ascii ''a'', JArr [JNum 1 0, JNum (- 250) 1, JBool True, JBool False, JNull,
                                     JStr (ascii ''xA'')]),
                 (ascii ''b'', JObj [(ascii ''c'', JArr [])])]) \<and>
   JSON_parse (ascii ''"x'' @ [92, 117, 48, 48, 52, 49, 92, 110, 92, 92] @ ascii ''"'') =
     Some (JStr [120, 65, 10, 92]) \<and>
   JSON_parse (ascii ''[[[[1]]]]'') = Some (JArr [JArr [JArr [JArr [JNum 1 0]]]]) \<and>
   JSON_parse (ascii ''0.5e-2'') = Some (JNum 5 (- 3))\<close>
  by (simp add: json_eval)

lemma JSON_parse_rejects:
  \<open>JSON_parse (ascii ''[1,]'') = None \<and> JSON_parse (ascii ''01'') = None \<and>
   JSON_parse (ascii ''1.'') = None \<and> JSON_parse (ascii ''-'') = None \<and>
   JSON_parse (ascii ''{}x'') = None \<and> JSON_parse [] = None \<and>
   JSON_parse (ascii ''nul'') = None \<and> JSON_parse (ascii ''[1 2]'') = None \<and>
   JSON_parse (ascii ''{"a" 1}'') = None \<and> JSON_parse (ascii ''{"a":1,}'') = None \<and>
   JSON_parse (ascii ''{a:1}'') = None \<and> JSON_parse (ascii ''"a'') = None\<close>
  by (simp add: json_eval)

section \<open>DuokanParser: the returned bundle\<close>

lemmas Duokan_eval =
  json_eval Duokan_validate_def Duokan_parse_def
  Duokan_isValidJSON_def Duokan_isValidXML_def Duokan_parseJSON_def Duokan_parsePlainText_def
  Duokan_jsonNote_def get_prop_def or_value_def or_undef_def truthy_def Duokan_mapNoteType_def
  rounds_to_zero_def object_prototype_keys_def
  unknown_book_def mk_duokan_def mk_reading_notes_def lbl_title_def lbl_author_def
  trim_def is_space_def is_line_terminator_def match_label_def label_at_def all_digits_def
  chapter_heading_def Let_def decimal_digit

text \<open>
  A number literal below half the smallest double is \<open>0\<close> at run time, hence falsy:
  \<open>1e-400\<close> is, \<open>5e-324\<close> is not. A type key that names an inherited property of
  \<open>typeMap\<close> yields that property, not \<open>'highlight'\<close>.
\<close>

lemma tiny_number_is_falsy:
  "truthy (JNum 1 (- 400)) = False \<and> truthy (JNum 5 (- 324)) = True \<and> truthy (JNum 0 3) = False"
  by (simp add: truthy_def rounds_to_zero_def)

lemma inherited_type_key:
  "Duokan_mapNoteType (JStr (ascii ''constructor'')) = Inherited_member (ascii ''constructor'') \<and>
   Duokan_mapNoteType (JStr (ascii ''note'')) = NoteType_of Note \<and>
   Duokan_mapNoteType (JStr (ascii ''other'')) = NoteType_of Highlight"
  by (simp add: Duokan_mapNoteType_def object_prototype_keys_def ascii_def)

text \<open>Whenever \<open>parse\<close> returns a bundle, its \<open>totalNotes\<close> is the length of its list.\<close>

lemma Duokan_parse_totalNotes:
  "Duokan_parse now s = Inr b \<Longrightarrow> js_totalNotes (js_metadata b) = length (js_notes b)"
  by (auto simp: Duokan_parse_def Duokan_parseJSON_def Duokan_parseXML_def
      Duokan_parsePlainText_def Let_def split: if_splits option.splits sum.splits)

text \<open>The free-text path stores lines of more than five code units only.\<close>

lemma Duokan_textNotes_content:
  "n \<in> set (Duokan_textNotes now t a i ls) \<Longrightarrow> \<exists>c. js_content n = JStr c \<and> 5 < length c"
  by (induction ls arbitrary: i) (auto simp: Let_def split: if_splits)

lemma Duokan_parsePlainText_content:
  "n \<in> set (js_notes (Duokan_parsePlainText now s)) \<Longrightarrow>
   \<exists>c. js_content n = JStr c \<and> 5 < length c"
  by (auto simp: Duokan_parsePlainText_def Let_def dest: Duokan_textNotes_content)

text \<open>
  The test input is not accepted by \<open>validate\<close>, and the free-text path returns no
  annotation for it: its only line contains the author label and is skipped.
\<close>

lemma test_broken_json_parse:
  "\<not> Duokan_validate test_broken_json \<and>
   js_notes (Duokan_parsePlainText now test_broken_json) = []"
  by (simp add: Duokan_eval test_broken_json_def)

text \<open>
  C2 at a JSON document that is cut off inside its \<open>notes\<close> array and contains the marker
  \<open>duokan\<close>: \<open>validate\<close> accepts it and \<open>JSON.parse\<close> rejects it. \<open>parse\<close> then takes the
  free-text path, because \<open>isValidJSON\<close> is false, and returns a bundle with one
  highlight whose content is the whole broken text. The branch of \<open>parseJSON\<close> that
  returns the empty bundle for unparsable JSON is never reached from \<open>parse\<close>.
\<close>

theorem broken_json_is_parsed_as_free_text:
  "Duokan_validate broken_json \<and> JSON_parse broken_json = None \<and>
   Duokan_parse now broken_json =
     Inr \<lparr>js_metadata = \<lparr>js_title = JStr (ascii ''Unknown Book''), js_author = Some (JStr []),
                          js_totalNotes = 1, js_lastSyncDate = Date_now now\<rparr>,
          js_notes = [\<lparr>js_id = ascii ''duokan_txt_0_'' @ decimal now,
                       js_bookTitle = JStr (ascii ''Unknown Book''),
                       js_bookAuthor = Some (JStr []),
                       js_noteType = NoteType_of Highlight,
                       js_content = JStr broken_json,
                       js_position = JNum 0 0,
                       js_location = None,
                       js_chapter = None,
                       js_createdAt = Date_now now,
                       js_color = None,
                       js_source = Duokan,
                       js_tags = None\<rparr>],
          js_rawData = JStr broken_json\<rparr>"
  by (simp add: Duokan_eval broken_json_def)

text \<open>
  C3 at the JSON document \<open>null\<close>: \<open>validate\<close> accepts it, because it is valid JSON, and
  \<open>parse\<close> throws a \<open>TypeError\<close>: \<open>parseJSON\<close> reads \<open>data.notes\<close> of \<open>null\<close>.
\<close>

theorem parse_null_throws:
  "Duokan_validate null_json \<and> Duokan_parse now null_json = Inl TypeError"
  by (simp add: Duokan_eval null_json_def)

text \<open>
  C7 at a JSON document with one annotation that has neither \<open>content\<close> nor \<open>text\<close>: the
  JSON path stores the annotation, with the empty string as its content.
\<close>

theorem json_note_without_content_is_kept:
  "Duokan_parse now empty_note_json =
     Inr \<lparr>js_metadata = \<lparr>js_title = JStr (ascii ''Unknown Book''), js_author = None,
                          js_totalNotes = 1, js_lastSyncDate = Date_now now\<rparr>,
          js_notes = [\<lparr>js_id = ascii ''duokan_0_'' @ decimal now,
                       js_bookTitle = JStr (ascii ''Unknown Book''),
                       js_bookAuthor = None,
                       js_noteType = NoteType_of Highlight,
                       js_content = JStr [],
                       js_position = JNum 0 0,
                       js_location = Some (JStr []),
                       js_chapter = None,
                       js_createdAt = Date_of (JNum (int now) 0),
                       js_color = None,
                       js_source = Duokan,
                       js_tags = Some (JArr [])\<rparr>],
          js_rawData = JObj [(ascii ''notes'', JArr [JObj []])]\<rparr>"
  by (simp add: Duokan_eval empty_note_json_def)

end
